theory Spec2Isabelle
  imports Main "HOL-Library.Word"
begin

unbundle bit_operations_syntax

section \<open>The ledger contract (contracts/TimeCapsule.sol)\<close>

subsection \<open>Data\<close>

type_synonym address = "160 word"
type_synonym uint256 = "256 word"
type_synonym uint64 = "64 word"
type_synonym bytes32 = "256 word"
type_synonym bytes = "8 word list"

datatype CapsuleType = RAW_TEXT | HASH_ONLY | ENCRYPTED

datatype CapsuleStatus = LOCKED | UNLOCKED | REVEALED

record CapsuleMeta =
  owner :: address
  createdAt :: uint64
  unlockTime :: uint64
  capsuleType :: CapsuleType
  status :: CapsuleStatus
  contentHash :: bytes32
  contentRef :: string
  recipients :: "string list"
  isPublic :: bool

text \<open>
  The custom errors of the contract, and four ways a call reverts without one of
  them: \<open>Panic\<close> is the checked arithmetic of Solidity 0.8 overflowing,
  \<open>TransferFailed\<close> is a \<open>transfer\<close> the recipient does not accept,
  \<open>RequireFailed\<close> is a failed \<open>require\<close> with its message, and
  \<open>NonPayable\<close> is the revert, with no data, of a call that sends ether to a
  function not declared \<open>payable\<close>; it comes before the modifiers and the body.
\<close>

datatype error =
    InvalidUnlockTime
  | InsufficientFee
  | NotOwner
  | CapsuleNotFound
  | CapsuleStillLocked
  | CapsuleAlreadyRevealed
  | ContentTooLarge
  | HashMismatch
  | UnauthorizedAccess
  | Panic
  | TransferFailed
  | RequireFailed string
  | NonPayable

datatype event =
    CapsuleCreated uint256 address uint64 CapsuleType bytes32
  | CapsuleRevealed uint256 address string
  | CapsuleUnlocked uint256 address

text \<open>
  The storage of the contract. A Solidity mapping is total: a key never written
  holds the zero value of its type. \<open>events\<close> is the log of emitted events.
\<close>

record contract =
  capsuleCounter :: uint256
  capsules :: "uint256 \<Rightarrow> CapsuleMeta"
  userCapsules :: "address \<Rightarrow> uint256 list"
  protocolFee :: uint256
  treasury :: address
  events :: "event list"

text \<open>
  What a call sees of the chain: \<open>msg.sender\<close>, \<open>msg.value\<close>,
  \<open>block.timestamp\<close>, and whether an address accepts a plain \<open>transfer\<close>
  (the recipient's code, which the contract does not control).
\<close>

record env =
  sender :: address
  msg_value :: uint256
  timestamp :: uint256
  accepts :: "address \<Rightarrow> bool"

definition MIN_LOCK_DURATION :: uint64 where
  "MIN_LOCK_DURATION = 86400"

definition MAX_LOCK_DURATION :: uint64 where
  "MAX_LOCK_DURATION = 10 * 365 * 86400"

definition MAX_CONTENT_SIZE :: uint256 where
  "MAX_CONTENT_SIZE = 32 * 1024"

definition zero_capsule :: CapsuleMeta where
  "zero_capsule = \<lparr>owner = 0, createdAt = 0, unlockTime = 0, capsuleType = RAW_TEXT,
     status = LOCKED, contentHash = 0, contentRef = [], recipients = [], isPublic = False\<rparr>"

text \<open>The constructor: everything zero, the fee 0.001 ether, the treasury as given.\<close>

definition constructor :: "address \<Rightarrow> contract" where
  "constructor t = \<lparr>capsuleCounter = 0, capsules = (\<lambda>_. zero_capsule),
     userCapsules = (\<lambda>_. []), protocolFee = 1000000000000000, treasury = t, events = []\<rparr>"

subsection \<open>Modifiers\<close>

definition validCapsule :: "contract \<Rightarrow> uint256 \<Rightarrow> bool" where
  "validCapsule st capsuleId \<longleftrightarrow> \<not> (capsuleId = 0 \<or> capsuleId > capsuleCounter st)"

text \<open>
  \<open>onlyUnlocked\<close> compares the 256-bit \<open>block.timestamp\<close> with the 64-bit
  \<open>unlockTime\<close>, which Solidity widens to 256 bits.
\<close>

definition onlyUnlocked :: "contract \<Rightarrow> env \<Rightarrow> uint256 \<Rightarrow> bool" where
  "onlyUnlocked st e capsuleId \<longleftrightarrow>
     \<not> (timestamp e < ucast (unlockTime (capsules st capsuleId)))"

subsection \<open>Access control\<close>

definition alphabet :: string where
  "alphabet = ''0123456789abcdef''"

text \<open>
  \<open>value[i + 12]\<close> of the address widened to 32 bytes is byte \<open>i\<close> of its 20 bytes,
  the most significant first.
\<close>

definition addr_byte :: "address \<Rightarrow> nat \<Rightarrow> 8 word" where
  "addr_byte a i = ucast (drop_bit (8 * (19 - i)) a)"

definition addressToString :: "address \<Rightarrow> string" where
  "addressToString a = ''0x'' @ concat (map (\<lambda>i.
     [alphabet ! unat (drop_bit 4 (addr_byte a i)),
      alphabet ! unat (addr_byte a i AND 0x0f)]) [0..<20])"

text \<open>
  The bytes of a Solidity string, as \<open>abi.encodePacked\<close> gives them to the hash.
\<close>

definition str_bytes :: "string \<Rightarrow> bytes" where
  "str_bytes s = map (\<lambda>c. of_nat (of_char c)) s"

text \<open>
  \<open>keccak256\<close> is a primitive of the virtual machine, not code of the contract: every
  function that hashes takes it as the parameter \<open>H\<close>.
\<close>

definition compareStrings :: "(bytes \<Rightarrow> bytes32) \<Rightarrow> string \<Rightarrow> string \<Rightarrow> bool" where
  "compareStrings H a b \<longleftrightarrow> H (str_bytes a) = H (str_bytes b)"

fun in_recipients :: "(bytes \<Rightarrow> bytes32) \<Rightarrow> string list \<Rightarrow> string \<Rightarrow> bool" where
  "in_recipients H [] userStr = False"
| "in_recipients H (r # rs) userStr =
     (if compareStrings H r userStr then True else in_recipients H rs userStr)"

definition canAccessCapsule ::
  "(bytes \<Rightarrow> bytes32) \<Rightarrow> contract \<Rightarrow> env \<Rightarrow> uint256 \<Rightarrow> address \<Rightarrow> bool" where
  "canAccessCapsule H st e capsuleId user =
     (let capsule = capsules st capsuleId in
      if owner capsule = user then True
      else if in_recipients H (recipients capsule) (addressToString user) then True
      else if isPublic capsule \<and> timestamp e \<ge> ucast (unlockTime capsule) then True
      else False)"

subsection \<open>Operations\<close>

text \<open>
  A call returns \<open>Inl\<close> of the error when it reverts (the storage is then what it was
  before the call) and \<open>Inr\<close> of the new storage otherwise. The sums of
  \<open>createCapsule\<close> are 64-bit and checked, the left operand of \<open>||\<close> first.
  \<open>createCapsule\<close> is the one \<open>payable\<close> function; every other one reverts when
  the call sends ether.
\<close>

definition createCapsule ::
  "contract \<Rightarrow> env \<Rightarrow> CapsuleType \<Rightarrow> bytes32 \<Rightarrow> string \<Rightarrow> uint64 \<Rightarrow> string list \<Rightarrow> bool
     \<Rightarrow> error + (uint256 \<times> contract)" where
  "createCapsule st e cType cHash cRef uTime rcpts pub =
     (let currentTime = (ucast (timestamp e) :: uint64) in
      if unat currentTime + unat MIN_LOCK_DURATION \<ge> 2 ^ 64 then Inl Panic
      else if uTime \<le> currentTime + MIN_LOCK_DURATION then Inl InvalidUnlockTime
      else if unat currentTime + unat MAX_LOCK_DURATION \<ge> 2 ^ 64 then Inl Panic
      else if uTime > currentTime + MAX_LOCK_DURATION then Inl InvalidUnlockTime
      else if msg_value e < protocolFee st then Inl InsufficientFee
      else if capsuleCounter st = - 1 then Inl Panic
      else
        let capsuleId = capsuleCounter st + 1;
            capsule = \<lparr>owner = sender e, createdAt = currentTime, unlockTime = uTime,
              capsuleType = cType, status = LOCKED, contentHash = cHash, contentRef = cRef,
              recipients = rcpts, isPublic = pub\<rparr>;
            st' = st\<lparr>capsuleCounter := capsuleId,
              capsules := (capsules st)(capsuleId := capsule),
              userCapsules := (userCapsules st)
                (sender e := userCapsules st (sender e) @ [capsuleId])\<rparr>
        in
          if protocolFee st > 0 \<and> treasury st \<noteq> 0 \<and> \<not> accepts e (treasury st)
            then Inl TransferFailed
          else if msg_value e > protocolFee st \<and> \<not> accepts e (sender e)
            then Inl TransferFailed
          else Inr (capsuleId, st'\<lparr>events := events st' @
                 [CapsuleCreated capsuleId (sender e) uTime cType cHash]\<rparr>))"

definition revealCapsule ::
  "(bytes \<Rightarrow> bytes32) \<Rightarrow> contract \<Rightarrow> env \<Rightarrow> uint256 \<Rightarrow> bytes \<Rightarrow> string \<Rightarrow> error + contract" where
  "revealCapsule H st e capsuleId plaintextOrKey finalContentRef =
     (if msg_value e \<noteq> 0 then Inl NonPayable
      else if \<not> validCapsule st capsuleId then Inl CapsuleNotFound
      else if \<not> onlyUnlocked st e capsuleId then Inl CapsuleStillLocked
      else
        let capsule = capsules st capsuleId in
        if \<not> canAccessCapsule H st e capsuleId (sender e) then Inl UnauthorizedAccess
        else if status capsule = REVEALED then Inl CapsuleAlreadyRevealed
        else if H plaintextOrKey \<noteq> contentHash capsule then Inl HashMismatch
        else
          let capsule1 = capsule\<lparr>status := REVEALED\<rparr>;
              capsule2 = (if length finalContentRef > 0
                          then capsule1\<lparr>contentRef := finalContentRef\<rparr> else capsule1)
          in Inr (st\<lparr>capsules := (capsules st)(capsuleId := capsule2),
                      events := events st @
                        [CapsuleRevealed capsuleId (sender e) finalContentRef]\<rparr>))"

definition unlockCapsule ::
  "(bytes \<Rightarrow> bytes32) \<Rightarrow> contract \<Rightarrow> env \<Rightarrow> uint256 \<Rightarrow> error + contract" where
  "unlockCapsule H st e capsuleId =
     (if msg_value e \<noteq> 0 then Inl NonPayable
      else if \<not> validCapsule st capsuleId then Inl CapsuleNotFound
      else if \<not> onlyUnlocked st e capsuleId then Inl CapsuleStillLocked
      else
        let capsule = capsules st capsuleId in
        if \<not> canAccessCapsule H st e capsuleId (sender e) then Inl UnauthorizedAccess
        else if status capsule = LOCKED
          then Inr (st\<lparr>capsules := (capsules st)(capsuleId := capsule\<lparr>status := UNLOCKED\<rparr>),
                       events := events st @ [CapsuleUnlocked capsuleId (sender e)]\<rparr>)
        else Inr st)"

definition getCapsule :: "contract \<Rightarrow> uint256 \<Rightarrow> error + CapsuleMeta" where
  "getCapsule st capsuleId =
     (if \<not> validCapsule st capsuleId then Inl CapsuleNotFound
      else Inr (capsules st capsuleId))"

definition setProtocolFee :: "contract \<Rightarrow> env \<Rightarrow> uint256 \<Rightarrow> error + contract" where
  "setProtocolFee st e newFee =
     (if msg_value e \<noteq> 0 then Inl NonPayable
      else if sender e \<noteq> treasury st
        then Inl (RequireFailed ''Only treasury can update fee'')
      else Inr (st\<lparr>protocolFee := newFee\<rparr>))"

definition setTreasury :: "contract \<Rightarrow> env \<Rightarrow> address \<Rightarrow> error + contract" where
  "setTreasury st e newTreasury =
     (if msg_value e \<noteq> 0 then Inl NonPayable
      else if sender e \<noteq> treasury st
        then Inl (RequireFailed ''Only treasury can update address'')
      else Inr (st\<lparr>treasury := newTreasury\<rparr>))"

subsection \<open>Sequences of calls\<close>

datatype call =
    CreateCapsule CapsuleType bytes32 string uint64 "string list" bool
  | RevealCapsule uint256 bytes string
  | UnlockCapsule uint256
  | SetProtocolFee uint256
  | SetTreasury address

fun exec :: "(bytes \<Rightarrow> bytes32) \<Rightarrow> contract \<Rightarrow> env \<Rightarrow> call \<Rightarrow> error + contract" where
  "exec H st e (CreateCapsule cType cHash cRef uTime rcpts pub) =
     (case createCapsule st e cType cHash cRef uTime rcpts pub of
        Inl err \<Rightarrow> Inl err | Inr (capsuleId, st') \<Rightarrow> Inr st')"
| "exec H st e (RevealCapsule capsuleId m ref) = revealCapsule H st e capsuleId m ref"
| "exec H st e (UnlockCapsule capsuleId) = unlockCapsule H st e capsuleId"
| "exec H st e (SetProtocolFee newFee) = setProtocolFee st e newFee"
| "exec H st e (SetTreasury newTreasury) = setTreasury st e newTreasury"

text \<open>A transaction that reverts leaves the storage as it was.\<close>

definition step :: "(bytes \<Rightarrow> bytes32) \<Rightarrow> contract \<Rightarrow> env \<times> call \<Rightarrow> contract" where
  "step H st tx = (case exec H st (fst tx) (snd tx) of Inl err \<Rightarrow> st | Inr st' \<Rightarrow> st')"

fun run :: "(bytes \<Rightarrow> bytes32) \<Rightarrow> contract \<Rightarrow> (env \<times> call) list \<Rightarrow> contract" where
  "run H st [] = st"
| "run H st (tx # txs) = run H (step H st tx) txs"

subsection \<open>Reading a capsule record\<close>

text \<open>The number of a status, as the enum of the contract numbers it.\<close>

fun status_rank :: "CapsuleStatus \<Rightarrow> nat" where
  "status_rank LOCKED = 0"
| "status_rank UNLOCKED = 1"
| "status_rank REVEALED = 2"

text \<open>The fields of the commitment: all but \<open>status\<close> and \<open>contentRef\<close>.\<close>

definition frozen_fields ::
  "CapsuleMeta \<Rightarrow> address \<times> uint64 \<times> uint64 \<times> CapsuleType \<times> string list \<times> bool \<times> bytes32" where
  "frozen_fields c = (owner c, createdAt c, unlockTime c, capsuleType c, recipients c,
     isPublic c, contentHash c)"

section \<open>The client (Frontend/src/lib)\<close>

subsection \<open>JavaScript values and strings\<close>

text \<open>
  A JavaScript string is modelled as a \<open>string\<close>, one \<open>char\<close> for each code unit, so
  the model covers the strings whose code units are below 256: every character that
  Base64 text, a decimal id or a content address can hold.

  \<open>validateRecoveryKit\<close> takes a value of type \<open>unknown\<close>; \<open>jsval\<close> is what
  \<open>JSON.parse\<close> can give it.
\<close>

datatype jsval =
    JUndefined
  | JNull
  | JBool bool
  | JNum int
  | JStr string
  | JArr "jsval list"
  | JObj "(string \<times> jsval) list"

fun truthy :: "jsval \<Rightarrow> bool" where
  "truthy JUndefined = False"
| "truthy JNull = False"
| "truthy (JBool b) = b"
| "truthy (JNum n) = (n \<noteq> 0)"
| "truthy (JStr s) = (s \<noteq> [])"
| "truthy (JArr xs) = True"
| "truthy (JObj fs) = True"

text \<open>\<open>typeof v === 'object'\<close> holds of \<open>null\<close>, of arrays and of objects.\<close>

fun typeof_object :: "jsval \<Rightarrow> bool" where
  "typeof_object JNull = True"
| "typeof_object (JArr xs) = True"
| "typeof_object (JObj fs) = True"
| "typeof_object v = False"

fun typeof_string :: "jsval \<Rightarrow> bool" where
  "typeof_string (JStr s) = True"
| "typeof_string v = False"

text \<open>
  Reading a property: of an object, the last binding of the name, as \<open>JSON.parse\<close>
  keeps it; \<open>undefined\<close> where there is none. The three names read here (\<open>key\<close>,
  \<open>iv\<close>, \<open>capsuleId\<close>) are no properties of an array.
\<close>

fun get_prop :: "jsval \<Rightarrow> string \<Rightarrow> jsval" where
  "get_prop (JObj fs) k = (case map_of (rev fs) k of Some v \<Rightarrow> v | None \<Rightarrow> JUndefined)"
| "get_prop v k = JUndefined"

text \<open>The string of a value known to be one (after the \<open>typeof\<close> checks).\<close>

fun str_of :: "jsval \<Rightarrow> string" where
  "str_of (JStr s) = s"
| "str_of v = []"

definition code :: "char \<Rightarrow> nat" where
  "code c = of_char c"

text \<open>White space of \<open>\s\<close> and of \<open>trim\<close>, among the code units below 256.\<close>

definition is_space :: "char \<Rightarrow> bool" where
  "is_space c \<longleftrightarrow> code c \<in> {9, 10, 11, 12, 13, 32, 160}"

definition trim :: "string \<Rightarrow> string" where
  "trim s = rev (dropWhile is_space (rev (dropWhile is_space s)))"

text \<open>\<open>s.replace(/\s/g, '')\<close>\<close>

definition strip_ws :: "string \<Rightarrow> string" where
  "strip_ws s = filter (\<lambda>c. \<not> is_space c) s"

definition is_digit :: "char \<Rightarrow> bool" where
  "is_digit c \<longleftrightarrow> 48 \<le> code c \<and> code c \<le> 57"

text \<open>\<open>/^\d+$/\<close>\<close>

definition all_digits :: "string \<Rightarrow> bool" where
  "all_digits s \<longleftrightarrow> s \<noteq> [] \<and> list_all is_digit s"

definition is_b64 :: "char \<Rightarrow> bool" where
  "is_b64 c \<longleftrightarrow> (65 \<le> code c \<and> code c \<le> 90) \<or> (97 \<le> code c \<and> code c \<le> 122)
     \<or> is_digit c \<or> code c = 43 \<or> code c = 47"

text \<open>
  \<open>/^[A-Za-z0-9+/]*={0,2}$/\<close>: the longest run of alphabet characters, then nothing,
  one or two \<open>=\<close>. The run cannot give a character back to the rest, since \<open>=\<close> is
  not in the alphabet.
\<close>

definition b64_regex :: "string \<Rightarrow> bool" where
  "b64_regex s \<longleftrightarrow> dropWhile is_b64 s \<in> {[], ''='', ''==''}"

definition startsWith :: "string \<Rightarrow> string \<Rightarrow> bool" where
  "startsWith p s \<longleftrightarrow> take (length p) s = p"

text \<open>The code units of \<open>s.toLowerCase()\<close>, for code units below 256.\<close>

definition lower_code :: "char \<Rightarrow> nat" where
  "lower_code c = (if (65 \<le> code c \<and> code c \<le> 90)
                      \<or> (192 \<le> code c \<and> code c \<le> 222 \<and> code c \<noteq> 215)
                   then code c + 32 else code c)"

definition toLowerCase :: "string \<Rightarrow> nat list" where
  "toLowerCase s = map lower_code s"

subsection \<open>Base64 (the browser's \<open>atob\<close>, and crypto.ts)\<close>

definition b64_index :: "char \<Rightarrow> nat" where
  "b64_index c = (if 65 \<le> code c \<and> code c \<le> 90 then code c - 65
                  else if 97 \<le> code c \<and> code c \<le> 122 then code c - 71
                  else if is_digit c then code c + 4
                  else if code c = 43 then 62 else 63)"

text \<open>Four 6-bit values give three bytes; three give two and two give one.\<close>

fun b64_bytes :: "nat list \<Rightarrow> nat list" where
  "b64_bytes (a # b # c # d # rest) =
     (a * 4 + b div 16) # ((b mod 16) * 16 + c div 4) # ((c mod 4) * 64 + d) # b64_bytes rest"
| "b64_bytes [a, b, c] = [a * 4 + b div 16, (b mod 16) * 16 + c div 4]"
| "b64_bytes [a, b] = [a * 4 + b div 16]"
| "b64_bytes xs = []"

definition is_ascii_ws :: "char \<Rightarrow> bool" where
  "is_ascii_ws c \<longleftrightarrow> code c \<in> {9, 10, 12, 13, 32}"

text \<open>
  \<open>atob\<close> is the forgiving Base64 decoder of the platform: it drops ASCII white space,
  drops one or two final \<open>=\<close> of a text whose length is a multiple of four, then throws
  (\<open>None\<close>) if the length is 1 modulo 4 or a character is outside the alphabet.
  The result is a binary string, one character for each byte.
\<close>

definition atob :: "string \<Rightarrow> string option" where
  "atob s =
     (let d = filter (\<lambda>c. \<not> is_ascii_ws c) s;
          n = length d;
          d' = (if n mod 4 = 0
                then (if drop (n - 2) d = ''=='' then take (n - 2) d
                      else if drop (n - 1) d = ''='' then take (n - 1) d else d)
                else d)
      in if length d' mod 4 = 1 then None
         else if \<not> list_all is_b64 d' then None
         else Some (map char_of (b64_bytes (map b64_index d'))))"

text \<open>The loop \<open>while (s.length % 4) s += '='\<close>.\<close>

definition pad4 :: "string \<Rightarrow> string" where
  "pad4 s = s @ replicate ((4 - length s mod 4) mod 4) (CHR ''='')"

text \<open>\<open>None\<close> is the \<open>Error('Failed to decode base64 data: ...')\<close> it throws.\<close>

definition base64ToArrayBuffer :: "string \<Rightarrow> bytes option" where
  "base64ToArrayBuffer base64 =
     (let cleanBase64 = pad4 (strip_ws (trim base64)) in
      if \<not> b64_regex cleanBase64 then None
      else case atob cleanBase64 of
             None \<Rightarrow> None
           | Some binaryString \<Rightarrow> Some (str_bytes binaryString))"

subsection \<open>Validating a recovery kit (crypto.ts)\<close>

text \<open>
  The failures of \<open>validateRecoveryKit\<close>, one for each message it returns:
  \<^item> \<open>NotObject\<close>: Recovery kit must be a valid JSON object
  \<^item> \<open>BadKeyField\<close>: Recovery kit missing or invalid encryption key
  \<^item> \<open>BadIvField\<close>: Recovery kit missing or invalid initialization vector
  \<^item> \<open>BadCapsuleIdField\<close>: Recovery kit missing or invalid capsule ID
  \<^item> \<open>KeyChars\<close>: Recovery kit key contains invalid base64 characters
  \<^item> \<open>IvChars\<close>: Recovery kit IV contains invalid base64 characters
  \<^item> \<open>Base64Data\<close>: Recovery kit contains invalid base64 encoded data
  \<^item> \<open>BufferLengths\<close>: Failed to validate key/IV buffer lengths
  \<^item> \<open>KeyLength\<close>: Invalid encryption key length
  \<^item> \<open>IvLength\<close>: Invalid initialization vector length
\<close>

datatype kit_error =
    NotObject | BadKeyField | BadIvField | BadCapsuleIdField | KeyChars | IvChars
  | Base64Data | BufferLengths | KeyLength | IvLength

datatype validation = Valid | Invalid kit_error

definition validateRecoveryKit :: "jsval \<Rightarrow> validation" where
  "validateRecoveryKit kit =
     (if \<not> truthy kit \<or> \<not> typeof_object kit then Invalid NotObject
      else
        let k = get_prop kit ''key''; i = get_prop kit ''iv''; c = get_prop kit ''capsuleId'' in
        if \<not> truthy k \<or> \<not> typeof_string k then Invalid BadKeyField
        else if \<not> truthy i \<or> \<not> typeof_string i then Invalid BadIvField
        else if \<not> truthy c \<or> \<not> typeof_string c then Invalid BadCapsuleIdField
        else if all_digits (str_of c) then Valid
        else
          let cleanKey = strip_ws (trim (str_of k)); cleanIv = strip_ws (trim (str_of i)) in
          if \<not> b64_regex cleanKey then Invalid KeyChars
          else if \<not> b64_regex cleanIv then Invalid IvChars
          else if atob cleanKey = None \<or> atob cleanIv = None then Invalid Base64Data
          else
            case base64ToArrayBuffer (str_of k) of
              None \<Rightarrow> Invalid BufferLengths
            | Some keyBuffer \<Rightarrow>
                (case base64ToArrayBuffer (str_of i) of
                   None \<Rightarrow> Invalid BufferLengths
                 | Some ivBuffer \<Rightarrow>
                     if length keyBuffer \<noteq> 32 then Invalid KeyLength
                     else if length ivBuffer \<noteq> 12 then Invalid IvLength
                     else Valid))"

subsection \<open>Client data (crypto.ts, reveal.ts, the IPFS service)\<close>

record file_entry =
  f_name :: string
  f_type :: string
  f_size :: int
  f_encryptedData :: string
  f_iv :: string
  f_key :: string

record DecryptedCapsuleContent =
  title :: string
  description :: string
  files :: "file_entry list"
  dc_createdAt :: int
  creator :: string

record comment =
  c_id :: string
  author :: string
  content :: string
  c_timestamp :: int

text \<open>
  A \<open>RevealedCapsule\<close>, with the fields of \<open>revealMetadata\<close> and of
  \<open>socialInteractions\<close> side by side.
\<close>

record RevealedCapsule =
  rc_id :: string
  originalData :: DecryptedCapsuleContent
  revealedAt :: int
  revealedBy :: string
  isEarlyReveal :: bool
  originalUnlockTime :: int
  revealMessage :: "string option"
  likes :: nat
  comments :: "comment list"

text \<open>
  An entry of the \<open>timeCapsules\<close> list, with the fields the reveal service reads.
  \<open>visibility\<close> is a number in the entries the contract client writes and is compared
  with a string by the reveal service, so it is kept as a value.
\<close>

record stored_capsule =
  sc_id :: string
  sc_title :: string
  sc_description :: string
  sc_unlockTime :: int
  sc_creator :: "string option"
  sc_visibility :: jsval
  ipfsHash :: "string option"

text \<open>
  The browser's \<open>localStorage\<close>: the list under \<open>revealed_capsules\<close> (the public
  index), the list under \<open>timeCapsules\<close>, both as \<open>JSON.parse\<close> returns them (an
  absent key is the empty list), and the other items by key.
\<close>

record localStorage =
  revealed_capsules :: "RevealedCapsule list"
  timeCapsules :: "stored_capsule list"
  items :: "string \<Rightarrow> string option"

datatype fetch_mode = Plain | Bearer | Cors | NoCors | SameOrigin | HeadNoCors

record response =
  ok :: bool
  status_code :: nat
  body :: string

text \<open>
  What the client calls and does not define: the network (\<open>fetch\<close>, \<open>None\<close> when it
  throws or the 15 seconds pass), \<open>encodeURIComponent\<close>, the reading of a proxy's
  JSON answer (\<open>None\<close> when it does not parse or holds no non-empty string), of the
  pin list's (are there rows), the AES-GCM decryption of \<open>crypto.subtle\<close> (importing
  the key, decrypting and decoding the text; \<open>None\<close> when any of them throws),
  \<open>JSON.parse\<close> of the decrypted text, the clock \<open>Date.now()\<close>, read once for a
  call, the decimal text of a number (\<open>toString\<close>), and the \<open>VITE_PINATA_JWT\<close>
  setting.
\<close>

record world =
  fetch :: "string \<Rightarrow> fetch_mode \<Rightarrow> response option"
  encodeURIComponent :: "string \<Rightarrow> string"
  proxy_content :: "string \<Rightarrow> string option"
  pin_rows :: "string \<Rightarrow> bool"
  subtle_decrypt :: "bytes \<Rightarrow> bytes \<Rightarrow> bytes \<Rightarrow> string option"
  parse_content :: "string \<Rightarrow> DecryptedCapsuleContent option"
  now :: int
  number_toString :: "int \<Rightarrow> string"
  pinataJWT :: string

text \<open>The calls that leave the client, in the order they are made.\<close>

datatype effect = Fetch string fetch_mode | SubtleDecrypt bytes bytes bytes

subsection \<open>Downloading by content address (the IPFS service)\<close>

definition pinataApiUrl :: string where
  "pinataApiUrl = ''https://api.pinata.cloud''"

definition pinataGateway :: string where
  "pinataGateway = ''https://gateway.pinata.cloud''"

definition corsProxies :: "world \<Rightarrow> string \<Rightarrow> string list" where
  "corsProxies w cid =
     [''https://api.allorigins.win/get?url='' @ encodeURIComponent w (pinataGateway @ ''/ipfs/'' @ cid),
      ''https://cors-anywhere.herokuapp.com/'' @ pinataGateway @ ''/ipfs/'' @ cid,
      ''https://corsproxy.io/?'' @ encodeURIComponent w (pinataGateway @ ''/ipfs/'' @ cid)]"

definition corsOptimizedGateways :: "string \<Rightarrow> (string \<times> fetch_mode) list" where
  "corsOptimizedGateways cid =
     [(pinataGateway @ ''/ipfs/'' @ cid, Cors),
      (''https://cloudflare-ipfs.com/ipfs/'' @ cid, Cors),
      (''https://dweb.link/ipfs/'' @ cid, Cors),
      (''https://'' @ cid @ ''.ipfs.dweb.link'', Cors)]"

definition alternativeMethods :: "string \<Rightarrow> (string \<times> fetch_mode) list" where
  "alternativeMethods cid =
     [(pinataGateway @ ''/ipfs/'' @ cid, NoCors), (pinataGateway @ ''/ipfs/'' @ cid, SameOrigin)]"

text \<open>Strategy 1: the first proxy whose answer is \<open>ok\<close> and holds a non-empty string.\<close>

fun try_proxies :: "world \<Rightarrow> string list \<Rightarrow> string option \<times> effect list" where
  "try_proxies w [] = (None, [])"
| "try_proxies w (proxyUrl # rest) =
     (let found = (case fetch w proxyUrl Plain of
                     None \<Rightarrow> None
                   | Some r \<Rightarrow> if ok r then proxy_content w (body r) else None)
      in case found of
           Some c \<Rightarrow> (Some c, [Fetch proxyUrl Plain])
         | None \<Rightarrow> (case try_proxies w rest of (res, t) \<Rightarrow> (res, Fetch proxyUrl Plain # t)))"

text \<open>
  Strategy 2, taken when a JWT is set: the pin list, and when it has rows the gateway
  with the JWT.
\<close>

definition pinata_strategy :: "world \<Rightarrow> string \<Rightarrow> string option \<times> effect list" where
  "pinata_strategy w cid =
     (if pinataJWT w = [] then (None, [])
      else
        let listUrl = pinataApiUrl @ ''/data/pinList?status=pinned&hashContains='' @ cid
                        @ ''&pageLimit=1'';
            gwUrl = pinataGateway @ ''/ipfs/'' @ cid
        in case fetch w listUrl Bearer of
             None \<Rightarrow> (None, [Fetch listUrl Bearer])
           | Some r \<Rightarrow>
               if ok r \<and> pin_rows w (body r)
               then (case fetch w gwUrl Bearer of
                       None \<Rightarrow> (None, [Fetch listUrl Bearer, Fetch gwUrl Bearer])
                     | Some r2 \<Rightarrow>
                         if ok r2 then (Some (body r2), [Fetch listUrl Bearer, Fetch gwUrl Bearer])
                         else (None, [Fetch listUrl Bearer, Fetch gwUrl Bearer]))
               else (None, [Fetch listUrl Bearer]))"

text \<open>Strategies 3 and 4: the first request whose answer is \<open>ok\<close> gives its text.\<close>

fun try_gateways :: "world \<Rightarrow> (string \<times> fetch_mode) list \<Rightarrow> string option \<times> effect list" where
  "try_gateways w [] = (None, [])"
| "try_gateways w ((url, mode) # rest) =
     (let found = (case fetch w url mode of
                     None \<Rightarrow> None
                   | Some r \<Rightarrow> if ok r then Some (body r) else None)
      in case found of
           Some c \<Rightarrow> (Some c, [Fetch url mode])
         | None \<Rightarrow> (case try_gateways w rest of (res, t) \<Rightarrow> (res, Fetch url mode # t)))"

text \<open>
  The errors \<open>download\<close> throws: \<open>InvalidCID\<close> (Invalid CID: CID cannot be empty),
  \<open>LocalNotFound cid\<close> (Content not found in localStorage for CID: ...) and
  \<open>AllStrategiesFailed cid\<close> (IPFS download failed after trying multiple strategies).
\<close>

datatype download_error = InvalidCID | LocalNotFound string | AllStrategiesFailed string

definition download ::
  "world \<Rightarrow> localStorage \<Rightarrow> string \<Rightarrow> (download_error + string) \<times> effect list" where
  "download w ls cid =
     (if cid = [] \<or> trim cid = [] then (Inl InvalidCID, [])
      else if startsWith ''local_'' cid then
        (case items ls (''ipfs_'' @ cid) of
           None \<Rightarrow> (Inl (LocalNotFound cid), [])
         | Some stored \<Rightarrow>
             if stored = [] then (Inl (LocalNotFound cid), []) else (Inr stored, []))
      else
        case try_proxies w (corsProxies w cid) of
          (Some c, t1) \<Rightarrow> (Inr c, t1)
        | (None, t1) \<Rightarrow>
            (case pinata_strategy w cid of
               (Some c, t2) \<Rightarrow> (Inr c, t1 @ t2)
             | (None, t2) \<Rightarrow>
                 (case try_gateways w (corsOptimizedGateways cid) of
                    (Some c, t3) \<Rightarrow> (Inr c, t1 @ t2 @ t3)
                  | (None, t3) \<Rightarrow>
                      (case try_gateways w (alternativeMethods cid) of
                         (Some c, t4) \<Rightarrow> (Inr c, t1 @ t2 @ t3 @ t4)
                       | (None, t4) \<Rightarrow> (Inl (AllStrategiesFailed cid), t1 @ t2 @ t3 @ t4)))))"

text \<open>
  \<open>checkContentExists\<close>: whether the content is there, without downloading it, and
  the state of each place asked (\<open>available\<close>, \<open>not found\<close>, \<open>error\<close> with the
  status of the answer, \<open>cors_blocked\<close> when the request throws).
\<close>

datatype gateway_state = Available | NotFound | ErrorStatus nat | CorsBlocked

record gateway_result =
  g_name :: string
  g_url :: string
  g_status :: gateway_state

definition checkGateways :: "string \<Rightarrow> (string \<times> string) list" where
  "checkGateways cid =
     [(''Pinata Gateway'', pinataGateway @ ''/ipfs/'' @ cid),
      (''IPFS.io Gateway'', ''https://ipfs.io/ipfs/'' @ cid),
      (''Cloudflare Gateway'', ''https://cloudflare-ipfs.com/ipfs/'' @ cid),
      (''Dweb.link Gateway'', ''https://dweb.link/ipfs/'' @ cid)]"

fun probe_gateways ::
  "world \<Rightarrow> (string \<times> string) list \<Rightarrow> (bool \<times> gateway_result list) \<times> effect list" where
  "probe_gateways w [] = ((False, []), [])"
| "probe_gateways w ((gname, url) # rest) =
     (let here = (case fetch w url HeadNoCors of
                    None \<Rightarrow> (False, CorsBlocked)
                  | Some r \<Rightarrow> if ok r then (True, Available)
                              else (False, ErrorStatus (status_code r)))
      in case probe_gateways w rest of
           ((anyExists, results), t) \<Rightarrow>
             ((fst here \<or> anyExists,
               \<lparr>g_name = gname, g_url = url, g_status = snd here\<rparr> # results),
              Fetch url HeadNoCors # t))"

definition checkContentExists ::
  "world \<Rightarrow> localStorage \<Rightarrow> string \<Rightarrow> (bool \<times> gateway_result list) \<times> effect list" where
  "checkContentExists w ls cid =
     (if startsWith ''local_'' cid then
        (let exists = (items ls (''ipfs_'' @ cid) \<noteq> None) in
         ((exists, [\<lparr>g_name = ''localStorage'', g_url = ''local://'' @ cid,
                     g_status = (if exists then Available else NotFound)\<rparr>]), []))
      else probe_gateways w (checkGateways cid))"

subsection \<open>Decrypting with a recovery kit (crypto.ts)\<close>

text \<open>
  What \<open>decryptCapsuleContent\<close> throws, each rethrown as \<open>Decryption failed: ...\<close>:
  a TypeError of the logging, the kit does not validate, the encrypted content is missing, a Base64 text does not
  decode, \<open>crypto.subtle\<close> rejects the key or the ciphertext, the decrypted text is
  not JSON, or it has no title or no creator.
\<close>

datatype decrypt_error =
    DTypeError | DInvalidKit kit_error | DMissingContent | DBase64 | DSubtle | DJson
  | DStructure

text \<open>
  Before it validates, \<open>decryptCapsuleContent\<close> logs \<open>recoveryKit.capsuleId\<close>,
  \<open>recoveryKit.key.length\<close> and \<open>recoveryKit.iv.length\<close>: reading a property of
  \<open>null\<close> or \<open>undefined\<close> throws a TypeError.
\<close>

fun nullish :: "jsval \<Rightarrow> bool" where
  "nullish JUndefined = True"
| "nullish JNull = True"
| "nullish v = False"

definition decryptCapsuleContent ::
  "world \<Rightarrow> string \<Rightarrow> jsval \<Rightarrow> (decrypt_error + DecryptedCapsuleContent) \<times> effect list" where
  "decryptCapsuleContent w encryptedContentBase64 recoveryKit =
     (if nullish recoveryKit \<or> nullish (get_prop recoveryKit ''key'')
         \<or> nullish (get_prop recoveryKit ''iv'')
      then (Inl DTypeError, [])
      else
      case validateRecoveryKit recoveryKit of
        Invalid e \<Rightarrow> (Inl (DInvalidKit e), [])
      | Valid \<Rightarrow>
          if encryptedContentBase64 = [] then (Inl DMissingContent, [])
          else
            case base64ToArrayBuffer encryptedContentBase64 of
              None \<Rightarrow> (Inl DBase64, [])
            | Some encryptedContent \<Rightarrow>
                (case base64ToArrayBuffer (str_of (get_prop recoveryKit ''key'')) of
                   None \<Rightarrow> (Inl DBase64, [])
                 | Some k \<Rightarrow>
                     (case base64ToArrayBuffer (str_of (get_prop recoveryKit ''iv'')) of
                        None \<Rightarrow> (Inl DBase64, [])
                      | Some i \<Rightarrow>
                          (case subtle_decrypt w k i encryptedContent of
                             None \<Rightarrow> (Inl DSubtle, [SubtleDecrypt k i encryptedContent])
                           | Some decryptedString \<Rightarrow>
                               (case parse_content w decryptedString of
                                  None \<Rightarrow> (Inl DJson, [SubtleDecrypt k i encryptedContent])
                                | Some capsuleContent \<Rightarrow>
                                    if title capsuleContent = [] \<or> creator capsuleContent = []
                                    then (Inl DStructure, [SubtleDecrypt k i encryptedContent])
                                    else (Inr capsuleContent,
                                          [SubtleDecrypt k i encryptedContent]))))))"

subsection \<open>The reveal pipeline (reveal.ts)\<close>

definition getRevealedCapsule :: "localStorage \<Rightarrow> string \<Rightarrow> RevealedCapsule option" where
  "getRevealedCapsule ls capsuleId = find (\<lambda>c. rc_id c = capsuleId) (revealed_capsules ls)"

definition storeRevealedCapsule :: "localStorage \<Rightarrow> RevealedCapsule \<Rightarrow> localStorage" where
  "storeRevealedCapsule ls capsule =
     ls\<lparr>revealed_capsules :=
          filter (\<lambda>c. rc_id c \<noteq> rc_id capsule) (revealed_capsules ls) @ [capsule]\<rparr>"

definition getCapsuleIPFSHash :: "localStorage \<Rightarrow> string \<Rightarrow> string option" where
  "getCapsuleIPFSHash ls capsuleId =
     (case find (\<lambda>c. sc_id c = capsuleId) (timeCapsules ls) of
        None \<Rightarrow> None
      | Some capsule \<Rightarrow>
          (case ipfsHash capsule of
             None \<Rightarrow> None
           | Some h \<Rightarrow> if h \<noteq> [] then Some h else None))"

definition isUserAuthorized :: "DecryptedCapsuleContent \<Rightarrow> string \<Rightarrow> bool" where
  "isUserAuthorized capsuleData userAddress \<longleftrightarrow>
     toLowerCase (creator capsuleData) = toLowerCase userAddress"

text \<open>
  The failures \<open>revealCapsule\<close> of the reveal service returns, with their messages:
  \<^item> \<open>InvalidKit\<close>: Invalid recovery kit: ...
  \<^item> \<open>KitMismatch\<close>: Recovery kit does not match the specified capsule
  \<^item> \<open>AlreadyRevealed\<close>: This capsule has already been revealed
  \<^item> \<open>NoIPFSContent\<close>: Could not find IPFS content for this capsule
  \<^item> \<open>DownloadFailed\<close>: Failed to download content from IPFS: ...
  \<^item> \<open>DecryptionFailed\<close>: the message of the error caught by the outer \<open>catch\<close>
  \<^item> \<open>NotAuthorized\<close>: You are not authorized to reveal this capsule
\<close>

datatype reveal_error =
    InvalidKit kit_error
  | KitMismatch
  | AlreadyRevealed
  | NoIPFSContent
  | DownloadFailed download_error
  | DecryptionFailed decrypt_error
  | NotAuthorized

definition mockDecryptedContent :: "world \<Rightarrow> string \<Rightarrow> DecryptedCapsuleContent" where
  "mockDecryptedContent w userAddress =
     \<lparr>title = ''Test Time Capsule'',
      description = ''This is a test capsule for early reveal functionality'',
      files = [], dc_createdAt = now w, creator = userAddress\<rparr>"

text \<open>
  The result (\<open>Inl\<close> is \<open>success: false\<close> with its reason, \<open>Inr\<close> is
  \<open>success: true\<close> with the revealed capsule), the storage after the call, and the
  calls that left the client.
\<close>

definition RevealService_revealCapsule ::
  "world \<Rightarrow> localStorage \<Rightarrow> string \<Rightarrow> jsval \<Rightarrow> string \<Rightarrow> int \<Rightarrow> string option
     \<Rightarrow> (reveal_error + RevealedCapsule) \<times> localStorage \<times> effect list" where
  "RevealService_revealCapsule w ls capsuleId recoveryKit userAddress unlockT message =
     (case validateRecoveryKit recoveryKit of
        Invalid e \<Rightarrow> (Inl (InvalidKit e), ls, [])
      | Valid \<Rightarrow>
          if get_prop recoveryKit ''capsuleId'' \<noteq> JStr capsuleId \<and> \<not> all_digits capsuleId
          then (Inl KitMismatch, ls, [])
          else if getRevealedCapsule ls capsuleId \<noteq> None then (Inl AlreadyRevealed, ls, [])
          else
            case getCapsuleIPFSHash ls capsuleId of
              None \<Rightarrow> (Inl NoIPFSContent, ls, [])
            | Some ipfsCid \<Rightarrow>
                if startsWith ''mock_'' ipfsCid then
                  (let revealedCapsule =
                     \<lparr>rc_id = capsuleId, originalData = mockDecryptedContent w userAddress,
                      revealedAt = now w, revealedBy = userAddress,
                      isEarlyReveal = (now w < unlockT * 1000), originalUnlockTime = unlockT,
                      revealMessage = Some (case message of Some m \<Rightarrow> m | None \<Rightarrow> []),
                      likes = 0, comments = []\<rparr>
                   in (Inr revealedCapsule, storeRevealedCapsule ls revealedCapsule, []))
                else
                  case download w ls ipfsCid of
                    (Inl err, t) \<Rightarrow> (Inl (DownloadFailed err), ls, t)
                  | (Inr encryptedContent, t) \<Rightarrow>
                      (case decryptCapsuleContent w encryptedContent recoveryKit of
                         (Inl err, t') \<Rightarrow> (Inl (DecryptionFailed err), ls, t @ t')
                       | (Inr decryptedData, t') \<Rightarrow>
                           if \<not> isUserAuthorized decryptedData userAddress
                           then (Inl NotAuthorized, ls, t @ t')
                           else
                             (let revealedCapsule =
                                \<lparr>rc_id = capsuleId, originalData = decryptedData,
                                 revealedAt = now w, revealedBy = userAddress,
                                 isEarlyReveal = (now w < unlockT * 1000),
                                 originalUnlockTime = unlockT, revealMessage = message,
                                 likes = 0, comments = []\<rparr>
                              in (Inr revealedCapsule, storeRevealedCapsule ls revealedCapsule,
                                  t @ t'))))"

subsection \<open>The other writers of the index (reveal.ts)\<close>

text \<open>
  \<open>findIndex\<close> followed by an update in place: the first element that satisfies
  \<open>P\<close> is replaced; \<open>None\<close> when there is none (the index \<open>-1\<close>).
\<close>

fun update_first :: "('a \<Rightarrow> bool) \<Rightarrow> ('a \<Rightarrow> 'a) \<Rightarrow> 'a list \<Rightarrow> 'a list option" where
  "update_first P f [] = None"
| "update_first P f (x # xs) =
     (if P x then Some (f x # xs)
      else case update_first P f xs of None \<Rightarrow> None | Some ys \<Rightarrow> Some (x # ys))"

definition likeCapsule :: "localStorage \<Rightarrow> string \<Rightarrow> bool \<times> localStorage" where
  "likeCapsule ls capsuleId =
     (case update_first (\<lambda>c. rc_id c = capsuleId) (\<lambda>c. c\<lparr>likes := likes c + 1\<rparr>)
             (revealed_capsules ls) of
        None \<Rightarrow> (False, ls)
      | Some revealed \<Rightarrow> (True, ls\<lparr>revealed_capsules := revealed\<rparr>))"

definition addComment ::
  "world \<Rightarrow> localStorage \<Rightarrow> string \<Rightarrow> string \<Rightarrow> string \<Rightarrow> bool \<times> localStorage" where
  "addComment w ls capsuleId who words =
     (let cmt = \<lparr>c_id = number_toString w (now w), author = who, content = words,
                  c_timestamp = now w\<rparr>
      in case update_first (\<lambda>c. rc_id c = capsuleId) (\<lambda>c. c\<lparr>comments := comments c @ [cmt]\<rparr>)
                (revealed_capsules ls) of
           None \<Rightarrow> (False, ls)
         | Some revealed \<Rightarrow> (True, ls\<lparr>revealed_capsules := revealed\<rparr>))"

text \<open>
  \<open>clearAllRevealedCapsules\<close> removes the keys \<open>revealed_capsules\<close> and
  \<open>social_interactions\<close>.
\<close>

definition clearAllRevealedCapsules :: "localStorage \<Rightarrow> localStorage" where
  "clearAllRevealedCapsules ls =
     ls\<lparr>revealed_capsules := [], items := (items ls)(''social_interactions'' := None)\<rparr>"

text \<open>\<open>capsule.creator || d\<close>: the creator when it is a non-empty string.\<close>

definition creator_or :: "stored_capsule \<Rightarrow> string \<Rightarrow> string" where
  "creator_or capsule d =
     (case sc_creator capsule of None \<Rightarrow> d | Some c \<Rightarrow> if c = [] then d else c)"

definition createPseudoRevealedCapsule :: "world \<Rightarrow> stored_capsule \<Rightarrow> RevealedCapsule" where
  "createPseudoRevealedCapsule w capsule =
     \<lparr>rc_id = sc_id capsule,
      originalData = \<lparr>title = sc_title capsule, description = sc_description capsule,
        files = [], dc_createdAt = now w, creator = creator_or capsule ''Unknown''\<rparr>,
      revealedAt = now w, revealedBy = creator_or capsule ''system'', isEarlyReveal = False,
      originalUnlockTime = sc_unlockTime capsule,
      revealMessage = Some ''Unlocked naturally (content preview)'',
      likes = 0, comments = []\<rparr>"

text \<open>
  \<open>addUnlockedCapsulesAsPseudoRevealed\<close>: every stored capsule whose unlock time has
  passed (\<open>Date.now() / 1000 >= unlockTime\<close>), whose id is not in the index as it was
  read at the start, and whose visibility is not the string \<open>private\<close>, is appended
  as a pseudo-revealed capsule; the index is written when at least one was added.
\<close>

definition addUnlockedCapsulesAsPseudoRevealed ::
  "world \<Rightarrow> localStorage \<Rightarrow> string \<Rightarrow> nat \<times> localStorage" where
  "addUnlockedCapsulesAsPseudoRevealed w ls userAddress =
     (let existingRevealed = revealed_capsules ls;
          added = filter (\<lambda>capsule.
                    now w \<ge> sc_unlockTime capsule * 1000
                    \<and> \<not> list_ex (\<lambda>r. rc_id r = sc_id capsule) existingRevealed
                    \<and> sc_visibility capsule \<noteq> JStr ''private'') (timeCapsules ls);
          addedCount = length added
      in if addedCount > 0
         then (addedCount,
               ls\<lparr>revealed_capsules :=
                    existingRevealed @ map (createPseudoRevealedCapsule w) added\<rparr>)
         else (addedCount, ls))"

text \<open>The calls that write the index, and a sequence of them, each with its world.\<close>

datatype client_call =
    Reveal string jsval string int "string option"
  | Like string
  | Comment string string string
  | ClearAll
  | AddPseudo string

fun client_step :: "world \<Rightarrow> localStorage \<Rightarrow> client_call \<Rightarrow> localStorage" where
  "client_step w ls (Reveal capsuleId kit user unlockT message) =
     fst (snd (RevealService_revealCapsule w ls capsuleId kit user unlockT message))"
| "client_step w ls (Like capsuleId) = snd (likeCapsule ls capsuleId)"
| "client_step w ls (Comment capsuleId who words) = snd (addComment w ls capsuleId who words)"
| "client_step w ls ClearAll = clearAllRevealedCapsules ls"
| "client_step w ls (AddPseudo user) = snd (addUnlockedCapsulesAsPseudoRevealed w ls user)"

fun client_run :: "localStorage \<Rightarrow> (world \<times> client_call) list \<Rightarrow> localStorage" where
  "client_run ls [] = ls"
| "client_run ls ((w, c) # cs) = client_run (client_step w ls c) cs"

section \<open>Concrete inputs\<close>

text \<open>
  A small stand-in for the hash, used only to run the contract on concrete inputs;
  the properties below hold for every \<open>H\<close>.
\<close>

definition H0 :: "bytes \<Rightarrow> bytes32" where
  "H0 bs = foldl (\<lambda>h b. h * 257 + ucast b + 1) 0 bs"

text \<open>
  A call by \<open>a\<close> at time \<open>t\<close>: \<open>env_at\<close> sends the fee, for \<open>createCapsule\<close>;
  \<open>call_at\<close> sends no ether, for the other functions.
\<close>

definition env_at :: "address \<Rightarrow> uint256 \<Rightarrow> env" where
  "env_at a t = \<lparr>sender = a, msg_value = 1000000000000000, timestamp = t,
     accepts = (\<lambda>_. True)\<rparr>"

definition call_at :: "address \<Rightarrow> uint256 \<Rightarrow> env" where
  "call_at a t = \<lparr>sender = a, msg_value = 0, timestamp = t, accepts = (\<lambda>_. True)\<rparr>"

text \<open>
  Account 5 creates a private capsule at time 1000 that unlocks at 90000 (\<open>st1\<close>),
  unlocks it at 90000 (\<open>st2\<close>) and reveals it at 90001 (\<open>st3\<close>).
\<close>

definition st1 :: contract where
  "st1 = step H0 (constructor 9)
     (env_at 5 1000, CreateCapsule ENCRYPTED (H0 [1, 2, 3]) ''Qm'' 90000 [] False)"

definition st2 :: contract where
  "st2 = step H0 st1 (call_at 5 90000, UnlockCapsule 1)"

definition st3 :: contract where
  "st3 = step H0 st2 (call_at 5 90001, RevealCapsule 1 [1, 2, 3] ''QmFinal'')"

definition capsule1 :: "CapsuleStatus \<Rightarrow> string \<Rightarrow> CapsuleMeta" where
  "capsule1 s r = \<lparr>owner = 5, createdAt = 1000, unlockTime = 90000, capsuleType = ENCRYPTED,
     status = s, contentHash = 132873, contentRef = r, recipients = [], isPublic = False\<rparr>"

text \<open>A 32-byte key and a 12-byte nonce in Base64, and two recovery kits.\<close>

definition key32 :: string where
  "key32 = ''AAAAAAAAAAAAAAAAAAAAAAAAAAAAAAAAAAAAAAAAAAA=''"

definition iv12 :: string where
  "iv12 = ''AAAAAAAAAAAAAAAA''"

definition kit_ok :: jsval where
  "kit_ok = JObj [(''key'', JStr key32), (''iv'', JStr iv12), (''capsuleId'', JStr ''capsule-a'')]"

definition kit_short :: jsval where
  "kit_short = JObj [(''key'', JStr ''AAAA''), (''iv'', JStr ''AAAA''),
     (''capsuleId'', JStr ''123'')]"

definition content0 :: DecryptedCapsuleContent where
  "content0 = \<lparr>title = ''hello'', description = ''future'', files = [], dc_createdAt = 1,
     creator = ''0xAbC''\<rparr>"

text \<open>
  A world with no network, where \<open>crypto.subtle\<close> accepts a 32-byte key with a
  12-byte nonce and rejects every other.
\<close>

definition w0 :: world where
  "w0 = \<lparr>fetch = (\<lambda>url mode. None), encodeURIComponent = (\<lambda>s. s),
     proxy_content = (\<lambda>b. None), pin_rows = (\<lambda>b. False),
     subtle_decrypt = (\<lambda>k i d. if length k = 32 \<and> length i = 12 then Some ''{}'' else None),
     parse_content = (\<lambda>s. Some content0), now = 5000, number_toString = (\<lambda>n. ''5000''),
     pinataJWT = []\<rparr>"

definition stored_entry :: "string \<Rightarrow> string option \<Rightarrow> stored_capsule" where
  "stored_entry i h = \<lparr>sc_id = i, sc_title = ''a title'', sc_description = ''a description'',
     sc_unlockTime = 4, sc_creator = Some ''0xAbC'', sc_visibility = JNum 1, ipfsHash = h\<rparr>"

definition ls0 :: localStorage where
  "ls0 = \<lparr>revealed_capsules = [],
     timeCapsules = [stored_entry ''capsule-a'' (Some ''local_a''), stored_entry ''123'' (Some ''local_c'')],
     items = [''ipfs_local_a'' \<mapsto> ''QUJD'', ''ipfs_local_c'' \<mapsto> ''AAAA'',
              ''ipfs_local_e'' \<mapsto> []]\<rparr>"

definition rc0 :: RevealedCapsule where
  "rc0 = \<lparr>rc_id = ''capsule-a'', originalData = content0, revealedAt = 5000,
     revealedBy = ''0xabc'', isEarlyReveal = False, originalUnlockTime = 4,
     revealMessage = None, likes = 0, comments = []\<rparr>"

definition ls1 :: localStorage where
  "ls1 = ls0\<lparr>revealed_capsules := [rc0]\<rparr>"

text \<open>
  A storage where the capsule list holds the same id twice, as two calls of the contract
  client's \<open>createCapsule\<close> within one millisecond leave it (the id is
  \<open>Date.now().toString()\<close>).
\<close>

definition ls2 :: localStorage where
  "ls2 = \<lparr>revealed_capsules = [],
     timeCapsules = [stored_entry ''1700000000000'' None, stored_entry ''1700000000000'' None],
     items = Map.empty\<rparr>"

section \<open>Properties of the ledger contract\<close>

subsection \<open>What a successful call changes\<close>

lemma fresh_id: "c \<noteq> (- 1 :: 'a::len word) \<Longrightarrow> x \<le> c \<Longrightarrow> x \<noteq> c + 1"
  using inc_less_eq_self_iff_eq [of c] by auto

lemma fresh_le: "c \<noteq> (- 1 :: 'a::len word) \<Longrightarrow> x \<le> c \<Longrightarrow> x \<le> c + 1"
  using inc_less_eq_self_iff_eq [of c] by (metis linear order_trans)

lemma createCapsule_Inr:
  assumes "createCapsule st e cType cHash cRef uTime rcpts pub = Inr (cid, st')"
  shows "capsuleCounter st \<noteq> - 1 \<and> cid = capsuleCounter st + 1
       \<and> capsuleCounter st' = capsuleCounter st + 1
       \<and> capsules st' = (capsules st)(cid := \<lparr>owner = sender e,
            createdAt = ucast (timestamp e), unlockTime = uTime, capsuleType = cType,
            status = LOCKED, contentHash = cHash, contentRef = cRef, recipients = rcpts,
            isPublic = pub\<rparr>)"
  using assms by (auto simp: createCapsule_def Let_def split: if_splits)

lemma createCapsule_frame:
  assumes "createCapsule st e cType cHash cRef uTime rcpts pub = Inr (cid, st')"
    and "validCapsule st i"
  shows "capsules st' i = capsules st i \<and> validCapsule st' i"
proof -
  from createCapsule_Inr [OF assms(1)]
  have c: "capsuleCounter st \<noteq> - 1" and i: "cid = capsuleCounter st + 1"
    and c': "capsuleCounter st' = capsuleCounter st + 1"
    and m: "capsules st' = (capsules st)(cid := \<lparr>owner = sender e,
            createdAt = ucast (timestamp e), unlockTime = uTime, capsuleType = cType,
            status = LOCKED, contentHash = cHash, contentRef = cRef, recipients = rcpts,
            isPublic = pub\<rparr>)"
    by simp_all
  from assms(2) have le: "i \<le> capsuleCounter st" and nz: "i \<noteq> 0"
    by (simp_all add: validCapsule_def not_less)
  from fresh_id [OF c le] have "i \<noteq> cid" by (simp add: i)
  moreover from fresh_le [OF c le] have "i \<le> capsuleCounter st'" by (simp add: c')
  ultimately show ?thesis using nz by (simp add: m validCapsule_def not_less)
qed

lemma unlockCapsule_Inr:
  assumes "unlockCapsule H st e cid = Inr st'"
  shows "capsuleCounter st' = capsuleCounter st
       \<and> capsules st' = (capsules st)(cid := (capsules st cid)
            \<lparr>status := (if status (capsules st cid) = LOCKED then UNLOCKED
                          else status (capsules st cid))\<rparr>)"
  using assms by (auto simp: unlockCapsule_def Let_def split: if_splits)

lemma revealCapsule_Inr:
  assumes "revealCapsule H st e cid m ref = Inr st'"
  shows "capsuleCounter st' = capsuleCounter st
       \<and> status (capsules st cid) \<noteq> REVEALED
       \<and> capsules st' = (capsules st)(cid := (capsules st cid)
            \<lparr>status := REVEALED,
              contentRef := (if ref \<noteq> [] then ref else contentRef (capsules st cid))\<rparr>)"
  using assms by (auto simp: revealCapsule_def Let_def split: if_splits)

lemma step_cases:
  "step H st tx = st
   \<or> (\<exists>cType cHash cRef uTime rcpts pub cid. snd tx = CreateCapsule cType cHash cRef uTime rcpts pub
        \<and> createCapsule st (fst tx) cType cHash cRef uTime rcpts pub = Inr (cid, step H st tx))
   \<or> (\<exists>cid m ref. snd tx = RevealCapsule cid m ref
        \<and> revealCapsule H st (fst tx) cid m ref = Inr (step H st tx))
   \<or> (\<exists>cid. snd tx = UnlockCapsule cid \<and> unlockCapsule H st (fst tx) cid = Inr (step H st tx))
   \<or> (capsuleCounter (step H st tx) = capsuleCounter st \<and> capsules (step H st tx) = capsules st)"
  by (cases "snd tx")
     (auto simp: step_def setProtocolFee_def setTreasury_def split: sum.splits if_splits)

lemma step_valid: "validCapsule st i \<Longrightarrow> validCapsule (step H st tx) i"
  using step_cases [of H st tx]
  by (auto simp: validCapsule_def dest: createCapsule_frame [unfolded validCapsule_def]
        unlockCapsule_Inr revealCapsule_Inr)

lemma status_rank_le_2: "status_rank s \<le> 2"
  by (cases s) simp_all

lemma step_status_mono:
  "validCapsule st i \<Longrightarrow>
     status_rank (status (capsules st i)) \<le> status_rank (status (capsules (step H st tx) i))"
  using step_cases [of H st tx]
  by (auto simp: status_rank_le_2 dest!: createCapsule_frame unlockCapsule_Inr revealCapsule_Inr)

lemma run_valid: "validCapsule st i \<Longrightarrow> validCapsule (run H st txs) i"
  by (induction txs arbitrary: st) (simp_all add: step_valid)

lemma run_status_mono:
  "validCapsule st i \<Longrightarrow>
     status_rank (status (capsules st i)) \<le> status_rank (status (capsules (run H st txs) i))"
proof (induction txs arbitrary: st)
  case Nil
  show ?case by simp
next
  case (Cons tx txs)
  have "status_rank (status (capsules st i)) \<le> status_rank (status (capsules (step H st tx) i))"
    by (rule step_status_mono [OF Cons.prems])
  also have "\<dots> \<le> status_rank (status (capsules (run H (step H st tx) txs) i))"
    by (rule Cons.IH [OF step_valid [OF Cons.prems]])
  finally show ?case by simp
qed

lemma canAccess_later:
  assumes "canAccessCapsule H st e i u" and "timestamp e \<le> timestamp e'"
    and "capsules st' i = (capsules st i)\<lparr>status := s\<rparr>"
  shows "canAccessCapsule H st' e' i u"
  using assms by (auto simp: canAccessCapsule_def Let_def split: if_splits)

lemma unlock_noop:
  assumes "msg_value e = 0"
    and "validCapsule st i" and "timestamp e \<ge> ucast (unlockTime (capsules st i))"
    and "canAccessCapsule H st e i (sender e)" and "status (capsules st i) \<noteq> LOCKED"
  shows "unlockCapsule H st e i = Inr st"
  using assms by (simp add: unlockCapsule_def onlyUnlocked_def Let_def not_less)

lemma unlock_success_guards:
  assumes "unlockCapsule H st e i = Inr st'"
  shows "msg_value e = 0 \<and> validCapsule st i
       \<and> timestamp e \<ge> ucast (unlockTime (capsules st i))
       \<and> canAccessCapsule H st e i (sender e)"
  using assms
  by (auto simp: unlockCapsule_def onlyUnlocked_def Let_def not_less split: if_splits)

text \<open>A call that sends ether to a function that is not payable reverts.\<close>

lemma nonpayable_reverts:
  assumes "msg_value e \<noteq> 0"
  shows "revealCapsule H st e i m ref = Inl NonPayable"
    and "unlockCapsule H st e i = Inl NonPayable"
    and "setProtocolFee st e fee = Inl NonPayable"
    and "setTreasury st e t = Inl NonPayable"
  using assms
  by (simp_all add: revealCapsule_def unlockCapsule_def setProtocolFee_def setTreasury_def)

lemma unlock_repeat:
  assumes "unlockCapsule H st e i = Inr st'" and "sender e' = sender e"
    and "msg_value e' = msg_value e" and "timestamp e \<le> timestamp e'"
  shows "unlockCapsule H st' e' i = Inr st'"
proof -
  from unlock_success_guards [OF assms(1)] have z: "msg_value e = 0"
    and v: "validCapsule st i"
    and t: "timestamp e \<ge> ucast (unlockTime (capsules st i))"
    and a: "canAccessCapsule H st e i (sender e)"
    by simp_all
  from z assms(3) have z': "msg_value e' = 0" by simp
  from unlockCapsule_Inr [OF assms(1)]
  have c: "capsuleCounter st' = capsuleCounter st"
    and m: "capsules st' i = (capsules st i)\<lparr>status := (if status (capsules st i) = LOCKED
              then UNLOCKED else status (capsules st i))\<rparr>"
    by simp_all
  have v': "validCapsule st' i" using v by (simp add: validCapsule_def c)
  have t': "timestamp e' \<ge> ucast (unlockTime (capsules st' i))"
    using t assms(4) by (simp add: m)
  have a': "canAccessCapsule H st' e' i (sender e')"
    using canAccess_later [OF a assms(4) m] by (simp add: assms(2))
  have s': "status (capsules st' i) \<noteq> LOCKED" by (simp add: m)
  show ?thesis by (rule unlock_noop [OF z' v' t' a' s'])
qed

lemma unlockCapsule_only_status:
  assumes "unlockCapsule H st e cid = Inr st'"
  shows "capsules st' k = (capsules st k)\<lparr>status := status (capsules st' k)\<rparr>"
  using unlockCapsule_Inr [OF assms] by simp

lemma revealCapsule_only_status_ref:
  assumes "revealCapsule H st e cid m ref = Inr st'"
  shows "capsules st' k = (capsules st k)\<lparr>status := status (capsules st' k),
           contentRef := (if k = cid \<and> ref \<noteq> [] then ref else contentRef (capsules st k))\<rparr>"
  using revealCapsule_Inr [OF assms] by simp

lemma step_capsule_shape:
  assumes "validCapsule st i"
  shows "\<exists>s r. capsules (step H st tx) i = (capsules st i)\<lparr>status := s, contentRef := r\<rparr>"
proof -
  let ?s = "step H st tx"
  have self: "capsules st i
      = (capsules st i)\<lparr>status := status (capsules st i), contentRef := contentRef (capsules st i)\<rparr>"
    by simp
  consider (same) "capsules ?s = capsules st"
    | (create) cType cHash cRef uTime rcpts pub cid
        where "createCapsule st (fst tx) cType cHash cRef uTime rcpts pub = Inr (cid, ?s)"
    | (reveal) cid m ref where "revealCapsule H st (fst tx) cid m ref = Inr ?s"
    | (unlock) cid where "unlockCapsule H st (fst tx) cid = Inr ?s"
    using step_cases [of H st tx] by auto
  then show ?thesis
  proof cases
    case same
    then have "capsules ?s i = capsules st i" by simp
    with self show ?thesis by metis
  next
    case create
    from createCapsule_frame [OF create assms] have "capsules ?s i = capsules st i" by simp
    with self show ?thesis by metis
  next
    case reveal
    from revealCapsule_only_status_ref [OF reveal, of i] show ?thesis by blast
  next
    case unlock
    have "(capsules st i)\<lparr>status := x\<rparr>
        = (capsules st i)\<lparr>status := x, contentRef := contentRef (capsules st i)\<rparr>" for x
      by simp
    with unlockCapsule_only_status [OF unlock, of i] show ?thesis by metis
  qed
qed

lemma step_frozen:
  assumes "validCapsule st i"
  shows "frozen_fields (capsules (step H st tx) i) = frozen_fields (capsules st i)"
proof -
  from step_capsule_shape [OF assms, of H tx] obtain s r
    where "capsules (step H st tx) i = (capsules st i)\<lparr>status := s, contentRef := r\<rparr>"
    by blast
  then show ?thesis by (simp add: frozen_fields_def)
qed

lemma run_frozen:
  "validCapsule st i \<Longrightarrow> frozen_fields (capsules (run H st txs) i) = frozen_fields (capsules st i)"
  by (induction txs arbitrary: st) (simp_all add: step_frozen step_valid)

lemma step_contentRef:
  assumes "validCapsule st i"
    and "contentRef (capsules (step H st tx) i) \<noteq> contentRef (capsules st i)"
  shows "(\<exists>m. snd tx = RevealCapsule i m (contentRef (capsules (step H st tx) i)))
       \<and> contentRef (capsules (step H st tx) i) \<noteq> []
       \<and> status (capsules st i) \<noteq> REVEALED
       \<and> status (capsules (step H st tx) i) = REVEALED"
proof -
  let ?s = "step H st tx"
  consider (same) "capsules ?s = capsules st"
    | (create) cType cHash cRef uTime rcpts pub cid
        where "createCapsule st (fst tx) cType cHash cRef uTime rcpts pub = Inr (cid, ?s)"
    | (reveal) cid m ref where "snd tx = RevealCapsule cid m ref"
        and "revealCapsule H st (fst tx) cid m ref = Inr ?s"
    | (unlock) cid where "unlockCapsule H st (fst tx) cid = Inr ?s"
    using step_cases [of H st tx] by auto
  then show ?thesis
  proof cases
    case same
    with assms(2) show ?thesis by simp
  next
    case create
    from createCapsule_frame [OF create assms(1)] assms(2) show ?thesis by simp
  next
    case reveal
    from revealCapsule_Inr [OF reveal(2)] assms(2) reveal(1) show ?thesis
      by (auto split: if_splits)
  next
    case unlock
    from unlockCapsule_Inr [OF unlock] assms(2) show ?thesis
      by (auto split: if_splits)
  qed
qed

lemma step_revealed_ref:
  assumes "validCapsule st i" and "status (capsules st i) = REVEALED"
  shows "contentRef (capsules (step H st tx) i) = contentRef (capsules st i)
       \<and> status (capsules (step H st tx) i) = REVEALED"
proof -
  have v: "validCapsule (step H st tx) i" by (rule step_valid [OF assms(1)])
  have r: "status (capsules (step H st tx) i) = REVEALED"
    using step_status_mono [OF assms(1), of H tx] assms(2)
    by (cases "status (capsules (step H st tx) i)") simp_all
  have "contentRef (capsules (step H st tx) i) = contentRef (capsules st i)"
    using step_contentRef [OF assms(1), of H tx] assms(2) by blast
  with r show ?thesis by simp
qed

lemma run_revealed_ref:
  "validCapsule st i \<Longrightarrow> status (capsules st i) = REVEALED \<Longrightarrow>
     contentRef (capsules (run H st txs) i) = contentRef (capsules st i)"
  by (induction txs arbitrary: st) (simp_all add: step_revealed_ref step_valid)

lemma canAccess_frozen:
  assumes "frozen_fields (capsules st' i) = frozen_fields (capsules st i)"
    and "canAccessCapsule H st e i u" and "timestamp e \<le> timestamp e'"
  shows "canAccessCapsule H st' e' i u"
  using assms by (auto simp: canAccessCapsule_def frozen_fields_def Let_def split: if_splits)

lemma unlock_repeat_later:
  assumes "unlockCapsule H st e i = Inr st'" and "sender e' = sender e"
    and "msg_value e' = msg_value e" and "timestamp e \<le> timestamp e'"
  shows "unlockCapsule H (run H st' txs) e' i = Inr (run H st' txs)"
proof -
  let ?s = "run H st' txs"
  from unlock_repeat [OF assms(1) refl refl order_refl]
  have u: "unlockCapsule H st' e i = Inr st'" .
  from unlock_success_guards [OF u] have z: "msg_value e = 0"
    and v: "validCapsule st' i"
    and t: "timestamp e \<ge> ucast (unlockTime (capsules st' i))"
    and a: "canAccessCapsule H st' e i (sender e)"
    by simp_all
  from z assms(3) have z': "msg_value e' = 0" by simp
  from unlockCapsule_Inr [OF assms(1)] have s: "status (capsules st' i) \<noteq> LOCKED"
    by simp
  have f: "frozen_fields (capsules ?s i) = frozen_fields (capsules st' i)"
    by (rule run_frozen [OF v])
  have v': "validCapsule ?s i" by (rule run_valid [OF v])
  have t': "timestamp e' \<ge> ucast (unlockTime (capsules ?s i))"
    using t assms(4) f by (simp add: frozen_fields_def)
  have a': "canAccessCapsule H ?s e' i (sender e')"
    using canAccess_frozen [OF f a assms(4)] by (simp add: assms(2))
  have "status_rank (status (capsules st' i)) \<le> status_rank (status (capsules ?s i))"
    by (rule run_status_mono [OF v])
  with s have s': "status (capsules ?s i) \<noteq> LOCKED"
    by (cases "status (capsules st' i)") auto
  show ?thesis by (rule unlock_noop [OF z' v' t' a' s'])
qed


subsection \<open>The concrete states\<close>

lemma H0_123: "H0 [1, 2, 3] = 132873" "H0 [1, 2, 2] = 132872"
  by (simp_all add: H0_def)

lemma st1_eq: "st1 = \<lparr>capsuleCounter = 1,
   capsules = (\<lambda>_. zero_capsule)(1 := capsule1 LOCKED ''Qm''),
   userCapsules = (\<lambda>_. [])(5 := [1]), protocolFee = 1000000000000000, treasury = 9,
   events = [CapsuleCreated 1 5 90000 ENCRYPTED 132873]\<rparr>"
  by (simp add: st1_def step_def createCapsule_def constructor_def env_at_def capsule1_def
      MIN_LOCK_DURATION_def MAX_LOCK_DURATION_def Let_def H0_123)

lemma st2_eq: "st2 = \<lparr>capsuleCounter = 1,
   capsules = (\<lambda>_. zero_capsule)(1 := capsule1 UNLOCKED ''Qm''),
   userCapsules = (\<lambda>_. [])(5 := [1]), protocolFee = 1000000000000000, treasury = 9,
   events = [CapsuleCreated 1 5 90000 ENCRYPTED 132873, CapsuleUnlocked 1 5]\<rparr>"
  by (simp add: st2_def st1_eq step_def unlockCapsule_def validCapsule_def onlyUnlocked_def
      canAccessCapsule_def call_at_def capsule1_def Let_def)

lemma st3_eq: "st3 = \<lparr>capsuleCounter = 1,
   capsules = (\<lambda>_. zero_capsule)(1 := capsule1 REVEALED ''QmFinal''),
   userCapsules = (\<lambda>_. [])(5 := [1]), protocolFee = 1000000000000000, treasury = 9,
   events = [CapsuleCreated 1 5 90000 ENCRYPTED 132873, CapsuleUnlocked 1 5,
     CapsuleRevealed 1 5 ''QmFinal'']\<rparr>"
  by (simp add: st3_def st2_eq step_def revealCapsule_def validCapsule_def onlyUnlocked_def
      canAccessCapsule_def call_at_def capsule1_def Let_def H0_123)

lemmas ex_simps = validCapsule_def onlyUnlocked_def canAccessCapsule_def env_at_def
  call_at_def capsule1_def Let_def H0_123


subsection \<open>Hash binding\<close>

text \<open>
  Claim C1. For an existing capsule, at or after its unlock time, with an authorized
  caller and a capsule not yet REVEALED, \<open>revealCapsule\<close> succeeds if and only if the
  hash of the presented bytes equals the stored \<open>contentHash\<close>; any bytes with another
  hash (a single-bit mutation of a valid credential among them) are rejected with
  \<open>HashMismatch\<close>. The call is the one the interface declares, sending no ether:
  \<open>revealCapsule\<close> is not payable (see \<open>nonpayable_reverts\<close>).
\<close>

theorem reveal_hash_binding:
  assumes "msg_value e = 0"
    and "validCapsule st capsuleId"
    and "timestamp e \<ge> ucast (unlockTime (capsules st capsuleId))"
    and "canAccessCapsule H st e capsuleId (sender e)"
    and "status (capsules st capsuleId) \<noteq> REVEALED"
  shows "((\<exists>st'. revealCapsule H st e capsuleId m ref = Inr st') \<longleftrightarrow>
            H m = contentHash (capsules st capsuleId))
       \<and> (H m \<noteq> contentHash (capsules st capsuleId) \<longrightarrow>
            revealCapsule H st e capsuleId m ref = Inl HashMismatch)"
  using assms by (simp add: revealCapsule_def onlyUnlocked_def Let_def not_less)

theorem reveal_hash_binding_witness:
  "msg_value (call_at 5 90000) = 0
   \<and> validCapsule st1 1
   \<and> timestamp (call_at 5 90000) \<ge> ucast (unlockTime (capsules st1 1))
   \<and> canAccessCapsule H0 st1 (call_at 5 90000) 1 (sender (call_at 5 90000))
   \<and> status (capsules st1 1) \<noteq> REVEALED
   \<and> H0 [1, 2, 3] = contentHash (capsules st1 1)
   \<and> (\<exists>st'. revealCapsule H0 st1 (call_at 5 90000) 1 [1, 2, 3] [] = Inr st')
   \<and> H0 [1, 2, 2] \<noteq> contentHash (capsules st1 1)
   \<and> revealCapsule H0 st1 (call_at 5 90000) 1 [1, 2, 2] [] = Inl HashMismatch"
  using reveal_hash_binding [of "call_at 5 90000" st1 1 H0 "[1, 2, 3]" "[]"]
    reveal_hash_binding [of "call_at 5 90000" st1 1 H0 "[1, 2, 2]" "[]"]
  by (simp add: st1_eq ex_simps)


subsection \<open>Timing\<close>

text \<open>
  Claim C2. For an existing capsule, \<open>unlockCapsule\<close> and \<open>revealCapsule\<close> both fail
  with \<open>CapsuleStillLocked\<close> when the time is before \<open>unlockTime\<close>; at or after it,
  with an authorized caller, \<open>unlockCapsule\<close> succeeds, and \<open>revealCapsule\<close> succeeds
  for a capsule not yet REVEALED and bytes whose hash matches. The calls are the ones
  the interface declares, sending no ether: neither function is payable.
\<close>

theorem timing_monotonicity:
  assumes "msg_value e = 0" and "validCapsule st capsuleId"
  shows "(timestamp e < ucast (unlockTime (capsules st capsuleId)) \<longrightarrow>
            unlockCapsule H st e capsuleId = Inl CapsuleStillLocked
          \<and> revealCapsule H st e capsuleId m ref = Inl CapsuleStillLocked)
       \<and> (timestamp e \<ge> ucast (unlockTime (capsules st capsuleId))
          \<and> canAccessCapsule H st e capsuleId (sender e) \<longrightarrow>
            (\<exists>st'. unlockCapsule H st e capsuleId = Inr st')
          \<and> (status (capsules st capsuleId) \<noteq> REVEALED
             \<and> H m = contentHash (capsules st capsuleId) \<longrightarrow>
               (\<exists>st'. revealCapsule H st e capsuleId m ref = Inr st')))"
  using assms
  by (simp add: unlockCapsule_def revealCapsule_def onlyUnlocked_def Let_def not_less)

theorem timing_monotonicity_witness:
  "msg_value (call_at 5 89999) = 0 \<and> msg_value (call_at 5 90000) = 0
   \<and> validCapsule st1 1
   \<and> timestamp (call_at 5 89999) < ucast (unlockTime (capsules st1 1))
   \<and> unlockCapsule H0 st1 (call_at 5 89999) 1 = Inl CapsuleStillLocked
   \<and> revealCapsule H0 st1 (call_at 5 89999) 1 [1, 2, 3] [] = Inl CapsuleStillLocked
   \<and> timestamp (call_at 5 90000) \<ge> ucast (unlockTime (capsules st1 1))
   \<and> canAccessCapsule H0 st1 (call_at 5 90000) 1 (sender (call_at 5 90000))
   \<and> (\<exists>st'. unlockCapsule H0 st1 (call_at 5 90000) 1 = Inr st')
   \<and> status (capsules st1 1) \<noteq> REVEALED
   \<and> H0 [1, 2, 3] = contentHash (capsules st1 1)
   \<and> (\<exists>st'. revealCapsule H0 st1 (call_at 5 90000) 1 [1, 2, 3] [] = Inr st')"
  using timing_monotonicity [of "call_at 5 89999" st1 1 H0 "[1, 2, 3]" "[]"]
    timing_monotonicity [of "call_at 5 90000" st1 1 H0 "[1, 2, 3]" "[]"]
  by (simp add: st1_eq ex_simps)


subsection \<open>The range of unlock times\<close>

text \<open>
  The two checked sums of \<open>createCapsule\<close>, read as numbers, when neither overflows.
\<close>

lemma lock_bounds:
  assumes "unat (ucast (timestamp e) :: uint64) + unat MAX_LOCK_DURATION < 2 ^ 64"
  shows "unat ((ucast (timestamp e) :: uint64) + MIN_LOCK_DURATION)
           = unat (ucast (timestamp e) :: uint64) + unat MIN_LOCK_DURATION"
    and "unat ((ucast (timestamp e) :: uint64) + MAX_LOCK_DURATION)
           = unat (ucast (timestamp e) :: uint64) + unat MAX_LOCK_DURATION"
    and "unat (ucast (timestamp e) :: uint64) + unat MIN_LOCK_DURATION < 2 ^ 64"
proof -
  have le: "unat MIN_LOCK_DURATION \<le> unat MAX_LOCK_DURATION"
    by (simp add: MIN_LOCK_DURATION_def MAX_LOCK_DURATION_def)
  with assms show m: "unat (ucast (timestamp e) :: uint64) + unat MIN_LOCK_DURATION < 2 ^ 64"
    by simp
  from m show "unat ((ucast (timestamp e) :: uint64) + MIN_LOCK_DURATION)
           = unat (ucast (timestamp e) :: uint64) + unat MIN_LOCK_DURATION"
    by (simp add: unat_add_lem [THEN iffD1])
  from assms show "unat ((ucast (timestamp e) :: uint64) + MAX_LOCK_DURATION)
           = unat (ucast (timestamp e) :: uint64) + unat MAX_LOCK_DURATION"
    by (simp add: unat_add_lem [THEN iffD1])
qed

lemma createCapsule_success_range:
  assumes "createCapsule st e cType cHash cRef uTime rcpts pub = Inr r"
  shows "unat (ucast (timestamp e) :: uint64) + unat MIN_LOCK_DURATION < unat uTime
       \<and> unat uTime \<le> unat (ucast (timestamp e) :: uint64) + unat MAX_LOCK_DURATION"
proof -
  from assms have o: "unat (ucast (timestamp e) :: uint64) + unat MAX_LOCK_DURATION < 2 ^ 64"
    and lo: "\<not> uTime \<le> (ucast (timestamp e) :: uint64) + MIN_LOCK_DURATION"
    and hi: "\<not> uTime > (ucast (timestamp e) :: uint64) + MAX_LOCK_DURATION"
    by (auto simp: createCapsule_def Let_def not_le split: if_splits)
  from lo hi show ?thesis
    by (simp add: word_le_nat_alt word_less_nat_alt lock_bounds [OF o] not_le not_less)
qed

lemma createCapsule_outside_range:
  assumes "unat (ucast (timestamp e) :: uint64) + unat MAX_LOCK_DURATION < 2 ^ 64"
    and "\<not> (unat (ucast (timestamp e) :: uint64) + unat MIN_LOCK_DURATION < unat uTime
          \<and> unat uTime \<le> unat (ucast (timestamp e) :: uint64) + unat MAX_LOCK_DURATION)"
  shows "createCapsule st e cType cHash cRef uTime rcpts pub = Inl InvalidUnlockTime"
proof -
  from assms(2) have "uTime \<le> (ucast (timestamp e) :: uint64) + MIN_LOCK_DURATION
      \<or> uTime > (ucast (timestamp e) :: uint64) + MAX_LOCK_DURATION"
    by (auto simp: word_le_nat_alt word_less_nat_alt lock_bounds [OF assms(1)])
  with assms(1) lock_bounds(3) [OF assms(1)] show ?thesis
    by (auto simp: createCapsule_def Let_def not_le)
qed

lemma createCapsule_inside_range:
  assumes "unat (ucast (timestamp e) :: uint64) + unat MAX_LOCK_DURATION < 2 ^ 64"
    and "unat (ucast (timestamp e) :: uint64) + unat MIN_LOCK_DURATION < unat uTime"
    and "unat uTime \<le> unat (ucast (timestamp e) :: uint64) + unat MAX_LOCK_DURATION"
    and "protocolFee st \<le> msg_value e" and "capsuleCounter st \<noteq> - 1"
    and "accepts e (treasury st)" and "accepts e (sender e)"
  shows "\<exists>st'. createCapsule st e cType cHash cRef uTime rcpts pub
                 = Inr (capsuleCounter st + 1, st')
           \<and> capsules st' (capsuleCounter st + 1)
               = \<lparr>owner = sender e, createdAt = ucast (timestamp e), unlockTime = uTime,
                  capsuleType = cType, status = LOCKED, contentHash = cHash,
                  contentRef = cRef, recipients = rcpts, isPublic = pub\<rparr>"
proof -
  from assms(2,3) have "\<not> uTime \<le> (ucast (timestamp e) :: uint64) + MIN_LOCK_DURATION"
    and "\<not> uTime > (ucast (timestamp e) :: uint64) + MAX_LOCK_DURATION"
    by (simp_all add: word_le_nat_alt word_less_nat_alt lock_bounds [OF assms(1)])
  with assms(1,4-7) lock_bounds(3) [OF assms(1)] show ?thesis
    by (simp add: createCapsule_def Let_def not_le not_less)
qed

text \<open>
  Claim C3 as it is stated fails at the lower end of the interval: the unlock time
  \<open>createdAt + MIN_LOCK_DURATION\<close> (here 1000 + 86400) is rejected with
  \<open>InvalidUnlockTime\<close>. It also fails beside the interval: with a sufficient fee and
  an unlock time inside it, a treasury that refuses the transfer makes the call revert;
  and at a timestamp where the checked 64-bit sum overflows, an unlock time outside the
  interval is rejected with a panic, not with \<open>InvalidUnlockTime\<close>.
\<close>

theorem createCapsule_interval_counterexample:
  "ucast (timestamp (env_at 5 1000)) + MIN_LOCK_DURATION = (87400 :: uint64)
   \<and> createCapsule (constructor 9) (env_at 5 1000) ENCRYPTED (H0 [1, 2, 3]) ''Qm'' 87400 []
        False = Inl InvalidUnlockTime
   \<and> protocolFee (constructor 9) \<le> msg_value (env_at 5 1000)
   \<and> createCapsule (constructor 9) ((env_at 5 1000)\<lparr>accepts := (\<lambda>a. a \<noteq> 9)\<rparr>) ENCRYPTED
        (H0 [1, 2, 3]) ''Qm'' 90000 [] False = Inl TransferFailed
   \<and> createCapsule (constructor 9) (env_at 5 18446744073709551615) ENCRYPTED (H0 [1, 2, 3])
        ''Qm'' 5 [] False = Inl Panic"
  by (simp add: createCapsule_def constructor_def env_at_def MIN_LOCK_DURATION_def
      MAX_LOCK_DURATION_def Let_def)

text \<open>
  Claim C3, as the code has it. With \<open>createdAt\<close> the 64-bit block timestamp, and short
  of the overflow of \<open>createdAt + MAX_LOCK_DURATION\<close>: \<open>createCapsule\<close> succeeds only
  for an unlock time strictly after \<open>createdAt + MIN_LOCK_DURATION\<close> and at most
  \<open>createdAt + MAX_LOCK_DURATION\<close>; every unlock time outside that half-open interval
  is rejected with \<open>InvalidUnlockTime\<close> and the storage is left as it was; and every
  unlock time inside it is accepted, the capsule recorded as LOCKED with that unlock
  time, when the fee is sufficient, the treasury and the sender accept the transfer and
  the refund, and the capsule counter is below its maximum.
\<close>

theorem createCapsule_interval:
  "((\<exists>r. createCapsule st e cType cHash cRef uTime rcpts pub = Inr r) \<longrightarrow>
       unat (ucast (timestamp e) :: uint64) + unat MIN_LOCK_DURATION < unat uTime
     \<and> unat uTime \<le> unat (ucast (timestamp e) :: uint64) + unat MAX_LOCK_DURATION)
   \<and> (unat (ucast (timestamp e) :: uint64) + unat MAX_LOCK_DURATION < 2 ^ 64
       \<and> \<not> (unat (ucast (timestamp e) :: uint64) + unat MIN_LOCK_DURATION < unat uTime
            \<and> unat uTime \<le> unat (ucast (timestamp e) :: uint64) + unat MAX_LOCK_DURATION) \<longrightarrow>
       createCapsule st e cType cHash cRef uTime rcpts pub = Inl InvalidUnlockTime
     \<and> step H st (e, CreateCapsule cType cHash cRef uTime rcpts pub) = st)
   \<and> (unat (ucast (timestamp e) :: uint64) + unat MAX_LOCK_DURATION < 2 ^ 64
       \<and> unat (ucast (timestamp e) :: uint64) + unat MIN_LOCK_DURATION < unat uTime
       \<and> unat uTime \<le> unat (ucast (timestamp e) :: uint64) + unat MAX_LOCK_DURATION
       \<and> protocolFee st \<le> msg_value e \<and> capsuleCounter st \<noteq> - 1
       \<and> accepts e (treasury st) \<and> accepts e (sender e) \<longrightarrow>
       (\<exists>st'. createCapsule st e cType cHash cRef uTime rcpts pub
                 = Inr (capsuleCounter st + 1, st')
           \<and> capsules st' (capsuleCounter st + 1)
               = \<lparr>owner = sender e, createdAt = ucast (timestamp e), unlockTime = uTime,
                  capsuleType = cType, status = LOCKED, contentHash = cHash,
                  contentRef = cRef, recipients = rcpts, isPublic = pub\<rparr>))"
proof (intro conjI impI)
  assume "\<exists>r. createCapsule st e cType cHash cRef uTime rcpts pub = Inr r"
  then obtain r where "createCapsule st e cType cHash cRef uTime rcpts pub = Inr r" ..
  from createCapsule_success_range [OF this]
  show "unat (ucast (timestamp e) :: uint64) + unat MIN_LOCK_DURATION < unat uTime"
    and "unat uTime \<le> unat (ucast (timestamp e) :: uint64) + unat MAX_LOCK_DURATION"
    by simp_all
next
  assume a: "unat (ucast (timestamp e) :: uint64) + unat MAX_LOCK_DURATION < 2 ^ 64
       \<and> \<not> (unat (ucast (timestamp e) :: uint64) + unat MIN_LOCK_DURATION < unat uTime
            \<and> unat uTime \<le> unat (ucast (timestamp e) :: uint64) + unat MAX_LOCK_DURATION)"
  then have r: "createCapsule st e cType cHash cRef uTime rcpts pub = Inl InvalidUnlockTime"
    using createCapsule_outside_range [of e uTime st cType cHash cRef rcpts pub] by blast
  then show "createCapsule st e cType cHash cRef uTime rcpts pub = Inl InvalidUnlockTime" .
  from r show "step H st (e, CreateCapsule cType cHash cRef uTime rcpts pub) = st"
    by (simp add: step_def)
next
  assume "unat (ucast (timestamp e) :: uint64) + unat MAX_LOCK_DURATION < 2 ^ 64
       \<and> unat (ucast (timestamp e) :: uint64) + unat MIN_LOCK_DURATION < unat uTime
       \<and> unat uTime \<le> unat (ucast (timestamp e) :: uint64) + unat MAX_LOCK_DURATION
       \<and> protocolFee st \<le> msg_value e \<and> capsuleCounter st \<noteq> - 1
       \<and> accepts e (treasury st) \<and> accepts e (sender e)"
  then show "\<exists>st'. createCapsule st e cType cHash cRef uTime rcpts pub
                 = Inr (capsuleCounter st + 1, st')
           \<and> capsules st' (capsuleCounter st + 1)
               = \<lparr>owner = sender e, createdAt = ucast (timestamp e), unlockTime = uTime,
                  capsuleType = cType, status = LOCKED, contentHash = cHash,
                  contentRef = cRef, recipients = rcpts, isPublic = pub\<rparr>"
    using createCapsule_inside_range [of e uTime st cType cHash cRef rcpts pub] by blast
qed

theorem createCapsule_interval_witness:
  "(\<exists>r. createCapsule (constructor 9) (env_at 5 1000) ENCRYPTED (H0 [1, 2, 3]) ''Qm'' 90000 []
          False = Inr r)
   \<and> unat (ucast (timestamp (env_at 5 1000)) :: uint64) + unat MAX_LOCK_DURATION < 2 ^ 64
   \<and> unat (ucast (timestamp (env_at 5 1000)) :: uint64) + unat MIN_LOCK_DURATION
       < unat (90000 :: uint64)
   \<and> unat (90000 :: uint64)
       \<le> unat (ucast (timestamp (env_at 5 1000)) :: uint64) + unat MAX_LOCK_DURATION
   \<and> protocolFee (constructor 9) \<le> msg_value (env_at 5 1000)
   \<and> capsuleCounter (constructor 9) \<noteq> - 1
   \<and> accepts (env_at 5 1000) (treasury (constructor 9))
   \<and> accepts (env_at 5 1000) (sender (env_at 5 1000))
   \<and> \<not> (unat (ucast (timestamp (env_at 5 1000)) :: uint64) + unat MIN_LOCK_DURATION
          < unat (87400 :: uint64))
   \<and> createCapsule (constructor 9) (env_at 5 1000) ENCRYPTED (H0 [1, 2, 3]) ''Qm'' 87400 []
        False = Inl InvalidUnlockTime
   \<and> step H0 (constructor 9)
        (env_at 5 1000, CreateCapsule ENCRYPTED (H0 [1, 2, 3]) ''Qm'' 87400 [] False)
       = constructor 9"
proof -
  have h: "unat (ucast (timestamp (env_at 5 1000)) :: uint64) + unat MAX_LOCK_DURATION < 2 ^ 64
     \<and> unat (ucast (timestamp (env_at 5 1000)) :: uint64) + unat MIN_LOCK_DURATION
         < unat (90000 :: uint64)
     \<and> unat (90000 :: uint64)
         \<le> unat (ucast (timestamp (env_at 5 1000)) :: uint64) + unat MAX_LOCK_DURATION
     \<and> protocolFee (constructor 9) \<le> msg_value (env_at 5 1000)
     \<and> capsuleCounter (constructor 9) \<noteq> - 1
     \<and> accepts (env_at 5 1000) (treasury (constructor 9))
     \<and> accepts (env_at 5 1000) (sender (env_at 5 1000))
     \<and> \<not> (unat (ucast (timestamp (env_at 5 1000)) :: uint64) + unat MIN_LOCK_DURATION
            < unat (87400 :: uint64))"
    by (simp add: env_at_def constructor_def MIN_LOCK_DURATION_def MAX_LOCK_DURATION_def)
  from createCapsule_interval [of "constructor 9" "env_at 5 1000" ENCRYPTED "H0 [1, 2, 3]"
      "''Qm''" 90000 "[]" False H0]
    createCapsule_interval [of "constructor 9" "env_at 5 1000" ENCRYPTED "H0 [1, 2, 3]"
      "''Qm''" 87400 "[]" False H0] h
  show ?thesis by blast
qed

subsection \<open>The status only moves forward\<close>

text \<open>
  Claim C4. Under every sequence of calls the status of an existing capsule never moves
  back (its number never decreases); \<open>unlockCapsule\<close> on a capsule that is already
  UNLOCKED, called as the interface declares it (no ether sent) by an authorized caller
  after the unlock time, leaves the storage as it is and raises no error; and once a
  call of \<open>unlockCapsule\<close> has succeeded, the same call (same caller, same value)
  repeated at any later time, after any calls in between, changes nothing and raises no
  error.
\<close>

theorem status_monotone:
  "(validCapsule st i \<longrightarrow>
      status_rank (status (capsules st i)) \<le> status_rank (status (capsules (run H st txs) i)))
   \<and> (msg_value e = 0 \<and> validCapsule st i
        \<and> timestamp e \<ge> ucast (unlockTime (capsules st i))
        \<and> canAccessCapsule H st e i (sender e) \<and> status (capsules st i) = UNLOCKED \<longrightarrow>
      unlockCapsule H st e i = Inr st)
   \<and> (unlockCapsule H st e i = Inr st' \<and> sender e' = sender e
        \<and> msg_value e' = msg_value e \<and> timestamp e \<le> timestamp e' \<longrightarrow>
      unlockCapsule H (run H st' txs') e' i = Inr (run H st' txs'))"
  using run_status_mono [of st i H txs] unlock_noop [of e st i H]
    unlock_repeat_later [of H st e i st' e' txs']
  by simp

theorem status_monotone_witness:
  "validCapsule st1 1
   \<and> status_rank (status (capsules st1 1))
       \<le> status_rank (status (capsules (run H0 st1
            [(call_at 5 90000, UnlockCapsule 1),
             (call_at 5 90001, RevealCapsule 1 [1, 2, 3] ''QmFinal''),
             (call_at 5 90002, UnlockCapsule 1)]) 1))
   \<and> msg_value (call_at 5 90001) = 0
   \<and> validCapsule st2 1 \<and> timestamp (call_at 5 90001) \<ge> ucast (unlockTime (capsules st2 1))
   \<and> canAccessCapsule H0 st2 (call_at 5 90001) 1 (sender (call_at 5 90001))
   \<and> status (capsules st2 1) = UNLOCKED
   \<and> unlockCapsule H0 st2 (call_at 5 90001) 1 = Inr st2
   \<and> unlockCapsule H0 st1 (call_at 5 90000) 1 = Inr st2
   \<and> sender (call_at 5 90001) = sender (call_at 5 90000)
   \<and> msg_value (call_at 5 90001) = msg_value (call_at 5 90000)
   \<and> timestamp (call_at 5 90000) \<le> timestamp (call_at 5 90001)
   \<and> unlockCapsule H0 (run H0 st2 [(call_at 6 90001, UnlockCapsule 1)]) (call_at 5 90001) 1
       = Inr (run H0 st2 [(call_at 6 90001, UnlockCapsule 1)])"
  using status_monotone [of st1 1 H0 "[(call_at 5 90000, UnlockCapsule 1),
             (call_at 5 90001, RevealCapsule 1 [1, 2, 3] ''QmFinal''),
             (call_at 5 90002, UnlockCapsule 1)]" "call_at 5 90000" st2 "call_at 5 90001"
             "[(call_at 6 90001, UnlockCapsule 1)]"]
    status_monotone [of st2 1 H0 "[]" "call_at 5 90001" st2 "call_at 5 90001" "[]"]
  by (simp add: st1_eq st2_eq ex_simps unlockCapsule_def)

subsection \<open>The commitment is never rewritten\<close>

text \<open>
  Claim C9. No sequence of calls changes the owner, \<open>createdAt\<close>, \<open>unlockTime\<close>,
  \<open>capsuleType\<close>, recipients, \<open>isPublic\<close> or \<open>contentHash\<close> of an existing capsule.
  \<open>unlockCapsule\<close> changes nothing but \<open>status\<close> fields; \<open>revealCapsule\<close> changes
  nothing but \<open>status\<close> and, when the final reference given is not empty, the
  \<open>contentRef\<close> of the revealed capsule. A call that changes \<open>contentRef\<close> is a reveal
  with that non-empty reference, taking the capsule to REVEALED, and the \<open>contentRef\<close>
  of a REVEALED capsule never changes again.
\<close>

theorem commitment_frame:
  "(validCapsule st i \<longrightarrow>
      frozen_fields (capsules (run H st txs) i) = frozen_fields (capsules st i))
   \<and> (unlockCapsule H st e j = Inr st' \<longrightarrow>
        (\<forall>k. capsules st' k = (capsules st k)\<lparr>status := status (capsules st' k)\<rparr>))
   \<and> (revealCapsule H st e j m ref = Inr st'' \<longrightarrow>
        (\<forall>k. capsules st'' k = (capsules st k)\<lparr>status := status (capsules st'' k),
           contentRef := (if k = j \<and> ref \<noteq> [] then ref else contentRef (capsules st k))\<rparr>))
   \<and> (validCapsule st i
        \<and> contentRef (capsules (step H st tx) i) \<noteq> contentRef (capsules st i) \<longrightarrow>
        (\<exists>m'. snd tx = RevealCapsule i m' (contentRef (capsules (step H st tx) i)))
        \<and> contentRef (capsules (step H st tx) i) \<noteq> []
        \<and> status (capsules st i) \<noteq> REVEALED
        \<and> status (capsules (step H st tx) i) = REVEALED)
   \<and> (validCapsule st i \<and> status (capsules st i) = REVEALED \<longrightarrow>
        contentRef (capsules (run H st txs) i) = contentRef (capsules st i))"
  using run_frozen [of st i H txs] unlockCapsule_only_status [of H st e j st']
    revealCapsule_only_status_ref [of H st e j m ref st''] step_contentRef [of st i H tx]
    run_revealed_ref [of st i H txs]
  by blast

theorem commitment_frame_witness:
  "validCapsule st1 1
   \<and> frozen_fields (capsules (run H0 st1
        [(call_at 5 90000, UnlockCapsule 1),
         (call_at 5 90001, RevealCapsule 1 [1, 2, 3] ''QmFinal'')]) 1)
       = frozen_fields (capsules st1 1)
   \<and> unlockCapsule H0 st1 (call_at 5 90000) 1 = Inr st2
   \<and> (\<forall>k. capsules st2 k = (capsules st1 k)\<lparr>status := status (capsules st2 k)\<rparr>)
   \<and> revealCapsule H0 st2 (call_at 5 90001) 1 [1, 2, 3] ''QmFinal'' = Inr st3
   \<and> (\<forall>k. capsules st3 k = (capsules st2 k)\<lparr>status := status (capsules st3 k),
         contentRef := (if k = 1 \<and> ''QmFinal'' \<noteq> [] then ''QmFinal''
                        else contentRef (capsules st2 k))\<rparr>)
   \<and> contentRef (capsules (step H0 st2 (call_at 5 90001, RevealCapsule 1 [1, 2, 3] ''QmFinal'')) 1)
       \<noteq> contentRef (capsules st2 1)
   \<and> validCapsule st3 1 \<and> status (capsules st3 1) = REVEALED
   \<and> contentRef (capsules (run H0 st3
        [(call_at 5 90002, RevealCapsule 1 [1, 2, 3] ''QmOther'')]) 1)
       = contentRef (capsules st3 1)"
proof -
  have u: "unlockCapsule H0 st1 (call_at 5 90000) 1 = Inr st2"
    by (simp add: st1_eq st2_eq ex_simps unlockCapsule_def)
  have r: "revealCapsule H0 st2 (call_at 5 90001) 1 [1, 2, 3] ''QmFinal'' = Inr st3"
    by (simp add: st2_eq st3_eq ex_simps revealCapsule_def)
  have v1: "validCapsule st1 1" by (simp add: st1_eq validCapsule_def)
  have v3: "validCapsule st3 1 \<and> status (capsules st3 1) = REVEALED"
    by (simp add: st3_eq validCapsule_def capsule1_def)
  have c: "contentRef (capsules (step H0 st2
             (call_at 5 90001, RevealCapsule 1 [1, 2, 3] ''QmFinal'')) 1)
           \<noteq> contentRef (capsules st2 1)"
    by (simp add: step_def r) (simp add: st2_eq st3_eq capsule1_def)
  from commitment_frame [of st1 1 H0 "[(call_at 5 90000, UnlockCapsule 1),
         (call_at 5 90001, RevealCapsule 1 [1, 2, 3] ''QmFinal'')]" "call_at 5 90000" 1 st2]
    commitment_frame [of st2 1 H0 "[]" "call_at 5 90001" 1 st2 "[1, 2, 3]" "''QmFinal''" st3]
    commitment_frame [of st3 1 H0 "[(call_at 5 90002, RevealCapsule 1 [1, 2, 3] ''QmOther'')]"]
    u r v1 v3 c
  show ?thesis by simp
qed


subsection \<open>Reveal without unlock\<close>

text \<open>
  Claim C10. \<open>revealCapsule\<close> needs no earlier \<open>unlockCapsule\<close>: on a capsule still
  LOCKED whose unlock time has passed, an authorized caller with bytes whose hash
  matches takes it straight to REVEALED (by a call that sends no ether, the function
  not being payable).
\<close>

theorem reveal_without_unlock:
  assumes "msg_value e = 0"
    and "validCapsule st capsuleId"
    and "status (capsules st capsuleId) = LOCKED"
    and "timestamp e \<ge> ucast (unlockTime (capsules st capsuleId))"
    and "canAccessCapsule H st e capsuleId (sender e)"
    and "H m = contentHash (capsules st capsuleId)"
  shows "\<exists>st'. revealCapsule H st e capsuleId m ref = Inr st'
           \<and> status (capsules st' capsuleId) = REVEALED"
  using assms by (simp add: revealCapsule_def onlyUnlocked_def Let_def not_less)

theorem reveal_without_unlock_witness:
  "msg_value (call_at 5 90000) = 0
   \<and> validCapsule st1 1
   \<and> status (capsules st1 1) = LOCKED
   \<and> timestamp (call_at 5 90000) \<ge> ucast (unlockTime (capsules st1 1))
   \<and> canAccessCapsule H0 st1 (call_at 5 90000) 1 (sender (call_at 5 90000))
   \<and> H0 [1, 2, 3] = contentHash (capsules st1 1)
   \<and> (\<exists>st'. revealCapsule H0 st1 (call_at 5 90000) 1 [1, 2, 3] [] = Inr st'
           \<and> status (capsules st' 1) = REVEALED)"
  using reveal_without_unlock [of "call_at 5 90000" st1 1 H0 "[1, 2, 3]" "[]"]
  by (simp add: st1_eq ex_simps)

section \<open>Properties of the client\<close>

subsection \<open>Concrete kits and Base64 texts\<close>

lemmas js_simps = code_def is_space_def trim_def strip_ws_def is_digit_def all_digits_def
  is_b64_def b64_regex_def startsWith_def b64_index_def is_ascii_ws_def atob_def pad4_def
  base64ToArrayBuffer_def str_bytes_def Let_def

lemma key32_decodes: "\<exists>k. base64ToArrayBuffer key32 = Some k \<and> length k = 32"
  by (simp add: key32_def js_simps)

lemma iv12_decodes: "\<exists>i. base64ToArrayBuffer iv12 = Some i \<and> length i = 12"
  by (simp add: iv12_def js_simps)

lemma short_decodes: "base64ToArrayBuffer ''AAAA'' = Some [0, 0, 0]"
  by (simp add: js_simps)

lemma kit_ok_valid: "validateRecoveryKit kit_ok = Valid"
  by (simp add: validateRecoveryKit_def kit_ok_def key32_def iv12_def js_simps)

lemma kit_short_valid: "validateRecoveryKit kit_short = Valid"
  by (simp add: validateRecoveryKit_def kit_short_def js_simps)

lemma kit_null_invalid: "validateRecoveryKit JNull = Invalid NotObject"
  by (simp add: validateRecoveryKit_def)


subsection \<open>Local content addresses\<close>

lemma startsWithD: "startsWith p s \<Longrightarrow> \<exists>rest. s = p @ rest"
  unfolding startsWith_def by (metis append_take_drop_id)

lemma trim_nonempty:
  assumes "x \<in> set s" and "\<not> is_space x"
  shows "trim s \<noteq> []"
proof -
  from assms have "x \<in> set (dropWhile is_space s)"
    by (induction s) auto
  then have "x \<in> set (rev (dropWhile is_space s))" by simp
  with assms(2) have "dropWhile is_space (rev (dropWhile is_space s)) \<noteq> []"
    by (auto simp: dropWhile_eq_Nil_conv)
  then show ?thesis by (simp add: trim_def)
qed

lemma startsWith_local_nonempty:
  assumes "startsWith ''local_'' cid"
  shows "cid \<noteq> [] \<and> trim cid \<noteq> []"
proof -
  from startsWithD [OF assms] obtain rest where c: "cid = ''local_'' @ rest" by blast
  have l: "\<not> is_space (CHR ''l'')" by (simp add: is_space_def code_def)
  have "CHR ''l'' \<in> set cid" by (simp add: c)
  from trim_nonempty [OF this l] show ?thesis by (simp add: c)
qed

lemma download_local_eq:
  assumes "startsWith ''local_'' cid"
  shows "download w ls cid =
     (case items ls (''ipfs_'' @ cid) of
        None \<Rightarrow> (Inl (LocalNotFound cid), [])
      | Some stored \<Rightarrow> if stored = [] then (Inl (LocalNotFound cid), []) else (Inr stored, []))"
proof -
  from startsWith_local_nonempty [OF assms]
  have "\<not> (cid = [] \<or> trim cid = [])" by simp
  then show ?thesis unfolding download_def using assms by (simp only: if_False if_True)
qed

text \<open>
  For comparison, an address without the prefix, with no network: every endpoint of
  the chain is tried, in order, before the download fails.
\<close>

lemma download_network_example:
  "snd (download w0 ls0 ''QmX'') =
     [Fetch ''https://api.allorigins.win/get?url=https://gateway.pinata.cloud/ipfs/QmX'' Plain,
      Fetch ''https://cors-anywhere.herokuapp.com/https://gateway.pinata.cloud/ipfs/QmX'' Plain,
      Fetch ''https://corsproxy.io/?https://gateway.pinata.cloud/ipfs/QmX'' Plain,
      Fetch ''https://gateway.pinata.cloud/ipfs/QmX'' Cors,
      Fetch ''https://cloudflare-ipfs.com/ipfs/QmX'' Cors,
      Fetch ''https://dweb.link/ipfs/QmX'' Cors,
      Fetch ''https://QmX.ipfs.dweb.link'' Cors,
      Fetch ''https://gateway.pinata.cloud/ipfs/QmX'' NoCors,
      Fetch ''https://gateway.pinata.cloud/ipfs/QmX'' SameOrigin]
   \<and> fst (download w0 ls0 ''QmX'') = Inl (AllStrategiesFailed ''QmX'')"
  by (simp add: download_def w0_def js_simps corsProxies_def pinata_strategy_def
      corsOptimizedGateways_def alternativeMethods_def pinataGateway_def)

text \<open>
  What holds of every content address that starts with \<open>local_\<close>: \<open>download\<close>
  makes no call to the network at all; it returns the stored content when the local
  cache holds a non-empty string for the address, and the not-found failure when the
  cache holds nothing for it.
\<close>

lemma download_local_no_network:
  assumes "startsWith ''local_'' cid"
  shows "snd (download w ls cid) = []
       \<and> (items ls (''ipfs_'' @ cid) = Some stored \<and> stored \<noteq> [] \<longrightarrow>
            fst (download w ls cid) = Inr stored)
       \<and> (items ls (''ipfs_'' @ cid) = None \<longrightarrow>
            fst (download w ls cid) = Inl (LocalNotFound cid))"
  unfolding download_local_eq [OF assms] by (auto split: option.splits)

lemma download_local_example:
  "download w0 ls0 ''local_a'' = (Inr ''QUJD'', [])
   \<and> download w0 ls0 ''local_b'' = (Inl (LocalNotFound ''local_b''), [])"
  by (simp add: download_def ls0_def js_simps)

text \<open>
  Claim C8. For every content address with the local prefix, \<open>download\<close> should
  resolve it from the local cache alone, returning the stored content when it is
  present and the not-found failure when it is absent. Where the cache holds the empty
  string for the address, the content is present (\<open>checkContentExists\<close> reports it
  available), and \<open>download\<close> answers that it was not found.
\<close>

theorem download_local_empty:
  "startsWith ''local_'' ''local_e''
   \<and> items ls0 (''ipfs_'' @ ''local_e'') = Some []
   \<and> checkContentExists w0 ls0 ''local_e''
       = ((True, [\<lparr>g_name = ''localStorage'', g_url = ''local://local_e'',
                    g_status = Available\<rparr>]), [])
   \<and> download w0 ls0 ''local_e'' = (Inl (LocalNotFound ''local_e''), [])"
  by (simp add: download_def checkContentExists_def ls0_def js_simps)

subsection \<open>Validation comes first\<close>

lemma validate_lengths:
  assumes "validateRecoveryKit kit = Valid"
    and "\<not> all_digits (str_of (get_prop kit ''capsuleId''))"
  shows "\<exists>k i. base64ToArrayBuffer (str_of (get_prop kit ''key'')) = Some k \<and> length k = 32
           \<and> base64ToArrayBuffer (str_of (get_prop kit ''iv'')) = Some i \<and> length i = 12"
  using assms
  by (auto simp: validateRecoveryKit_def Let_def split: if_splits option.splits)

lemma reveal_invalid_kit:
  assumes "validateRecoveryKit kit = Invalid e"
  shows "RevealService_revealCapsule w ls cid kit user t msg = (Inl (InvalidKit e), ls, [])"
  using assms by (simp add: RevealService_revealCapsule_def)

lemma reveal_kit_mismatch:
  assumes "validateRecoveryKit kit = Valid"
    and "get_prop kit ''capsuleId'' \<noteq> JStr cid" and "\<not> all_digits cid"
  shows "RevealService_revealCapsule w ls cid kit user t msg = (Inl KitMismatch, ls, [])"
  using assms by (simp add: RevealService_revealCapsule_def)

lemma reveal_effects_validated:
  assumes "snd (snd (RevealService_revealCapsule w ls cid kit user t msg)) \<noteq> []"
  shows "validateRecoveryKit kit = Valid
       \<and> (get_prop kit ''capsuleId'' = JStr cid \<or> all_digits cid)"
proof (cases "validateRecoveryKit kit")
  case (Invalid e)
  with assms show ?thesis by (simp add: reveal_invalid_kit)
next
  case Valid
  show ?thesis
  proof (rule ccontr)
    assume "\<not> ?thesis"
    with Valid have "get_prop kit ''capsuleId'' \<noteq> JStr cid" and "\<not> all_digits cid" by simp_all
    from reveal_kit_mismatch [OF Valid this] assms show False by simp
  qed
qed

lemma reveal_short_kit:
  "RevealService_revealCapsule w0 ls0 ''123'' kit_short ''0xabc'' 4 None
     = (Inl (DecryptionFailed DSubtle), ls0, [SubtleDecrypt [0, 0, 0] [0, 0, 0] [0, 0, 0]])"
proof -
  have d: "download w0 ls0 ''local_c'' = (Inr ''AAAA'', [])"
    by (simp add: download_def ls0_def js_simps)
  have c: "decryptCapsuleContent w0 ''AAAA'' kit_short
             = (Inl DSubtle, [SubtleDecrypt [0, 0, 0] [0, 0, 0] [0, 0, 0]])"
  proof -
    have pk: "str_of (get_prop kit_short ''key'') = ''AAAA''"
      and pi: "str_of (get_prop kit_short ''iv'') = ''AAAA''"
      by (simp_all add: kit_short_def)
    have sd: "subtle_decrypt w0 [0, 0, 0] [0, 0, 0] [0, 0, 0] = None" by (simp add: w0_def)
    have nn: "\<not> (nullish kit_short \<or> nullish (get_prop kit_short ''key'')
                 \<or> nullish (get_prop kit_short ''iv''))"
      by (simp add: kit_short_def)
    show ?thesis
      by (simp add: decryptCapsuleContent_def nn kit_short_valid pk pi short_decodes sd)
  qed
  have h: "getCapsuleIPFSHash ls0 ''123'' = Some ''local_c''"
    by (simp add: getCapsuleIPFSHash_def ls0_def stored_entry_def)
  have g: "getRevealedCapsule ls0 ''123'' = None"
    by (simp add: getRevealedCapsule_def ls0_def)
  have m: "\<not> startsWith ''mock_'' ''local_c''" by (simp add: startsWith_def)
  have a: "all_digits ''123''" by (simp add: js_simps)
  show ?thesis
    by (simp add: RevealService_revealCapsule_def kit_short_valid a g h m d c)
qed

lemma reveal_ok_kit:
  "\<exists>k i. RevealService_revealCapsule w0 ls0 ''capsule-a'' kit_ok ''0xabc'' 4 None
     = (Inr rc0, ls1, [SubtleDecrypt k i [65, 66, 67]])"
proof -
  from key32_decodes obtain k where k: "base64ToArrayBuffer key32 = Some k" "length k = 32"
    by blast
  from iv12_decodes obtain i where i: "base64ToArrayBuffer iv12 = Some i" "length i = 12"
    by blast
  have d: "download w0 ls0 ''local_a'' = (Inr ''QUJD'', [])"
    by (simp add: download_def ls0_def js_simps)
  have e: "base64ToArrayBuffer ''QUJD'' = Some [65, 66, 67]"
    by (simp add: js_simps)
  have pk: "str_of (get_prop kit_ok ''key'') = key32" and pi: "str_of (get_prop kit_ok ''iv'') = iv12"
    by (simp_all add: kit_ok_def)
  have sd: "subtle_decrypt w0 k i [65, 66, 67] = Some ''{}''"
    by (simp add: w0_def k i)
  have pc: "parse_content w0 ''{}'' = Some content0" by (simp add: w0_def)
  have tc: "title content0 \<noteq> [] \<and> creator content0 \<noteq> []" by (simp add: content0_def)
  have c: "decryptCapsuleContent w0 ''QUJD'' kit_ok
             = (Inr content0, [SubtleDecrypt k i [65, 66, 67]])"
  proof -
    have nn: "\<not> (nullish kit_ok \<or> nullish (get_prop kit_ok ''key'')
                 \<or> nullish (get_prop kit_ok ''iv''))"
      by (simp add: kit_ok_def)
    show ?thesis
      by (simp add: decryptCapsuleContent_def nn kit_ok_valid e pk pi k i sd pc tc)
  qed
  have h: "getCapsuleIPFSHash ls0 ''capsule-a'' = Some ''local_a''"
    by (simp add: getCapsuleIPFSHash_def ls0_def stored_entry_def)
  have g: "getRevealedCapsule ls0 ''capsule-a'' = None"
    by (simp add: getRevealedCapsule_def ls0_def)
  have m: "\<not> startsWith ''mock_'' ''local_a''" by (simp add: startsWith_def)
  have p: "get_prop kit_ok ''capsuleId'' = JStr ''capsule-a''" by (simp add: kit_ok_def)
  have u: "isUserAuthorized content0 ''0xabc''"
    by (simp add: isUserAuthorized_def content0_def toLowerCase_def lower_code_def code_def)
  have s: "storeRevealedCapsule ls0 rc0 = ls1"
    by (simp add: storeRevealedCapsule_def ls0_def ls1_def)
  have r: "\<lparr>rc_id = ''capsule-a'', originalData = content0, revealedAt = now w0,
            revealedBy = ''0xabc'', isEarlyReveal = (now w0 < 4000), originalUnlockTime = 4,
            revealMessage = None, likes = 0, comments = []\<rparr> = rc0"
    by (simp add: rc0_def w0_def)
  have "RevealService_revealCapsule w0 ls0 ''capsule-a'' kit_ok ''0xabc'' 4 None
     = (Inr rc0, ls1, [SubtleDecrypt k i [65, 66, 67]])"
    by (simp add: RevealService_revealCapsule_def kit_ok_valid p g h m d c u r s Let_def)
  then show ?thesis by blast
qed



text \<open>
  Claim C7 as it is stated fails for a kit whose own \<open>capsuleId\<close> is all digits:
  \<open>validateRecoveryKit\<close> accepts it without decoding anything, and a kit with a 3-byte
  key and a 3-byte nonce reaches \<open>crypto.subtle\<close>, where the decryption fails.
\<close>

theorem kit_validated_first_counterexample:
  "validateRecoveryKit kit_short = Valid
   \<and> base64ToArrayBuffer (str_of (get_prop kit_short ''key'')) = Some [0, 0, 0]
   \<and> base64ToArrayBuffer (str_of (get_prop kit_short ''iv'')) = Some [0, 0, 0]
   \<and> RevealService_revealCapsule w0 ls0 ''123'' kit_short ''0xabc'' 4 None
       = (Inl (DecryptionFailed DSubtle), ls0, [SubtleDecrypt [0, 0, 0] [0, 0, 0] [0, 0, 0]])"
  using kit_short_valid reveal_short_kit short_decodes by (simp add: kit_short_def)


text \<open>
  Claim C7, as the code has it. \<open>revealCapsule\<close> of the reveal service validates the
  kit before anything else. A kit that validates and whose own \<open>capsuleId\<close> is not all
  digits has a key that decodes to exactly 32 bytes and a nonce that decodes to exactly
  12; for a kit whose \<open>capsuleId\<close> is all digits (the mark of a mock capsule) the
  Base64 and length checks are skipped. A kit that does not validate gives the
  validation failure, and a kit whose \<open>capsuleId\<close> differs from the id being revealed
  gives the mismatch failure unless that id is all digits; in both cases nothing is
  downloaded or decrypted. Whenever a download or a decryption is attempted, the kit
  has validated and the id check has passed.
\<close>

theorem kit_validated_first:
  "(validateRecoveryKit kit = Valid \<and> \<not> all_digits (str_of (get_prop kit ''capsuleId'')) \<longrightarrow>
      (\<exists>k i. base64ToArrayBuffer (str_of (get_prop kit ''key'')) = Some k \<and> length k = 32
           \<and> base64ToArrayBuffer (str_of (get_prop kit ''iv'')) = Some i \<and> length i = 12))
   \<and> (validateRecoveryKit kit = Invalid e \<longrightarrow>
        RevealService_revealCapsule w ls cid kit user t msg = (Inl (InvalidKit e), ls, []))
   \<and> (validateRecoveryKit kit = Valid \<and> get_prop kit ''capsuleId'' \<noteq> JStr cid
        \<and> \<not> all_digits cid \<longrightarrow>
        RevealService_revealCapsule w ls cid kit user t msg = (Inl KitMismatch, ls, []))
   \<and> (snd (snd (RevealService_revealCapsule w ls cid kit user t msg)) \<noteq> [] \<longrightarrow>
        validateRecoveryKit kit = Valid
        \<and> (get_prop kit ''capsuleId'' = JStr cid \<or> all_digits cid))"
  using validate_lengths [of kit] reveal_invalid_kit [of kit e w ls cid user t msg]
    reveal_kit_mismatch [of kit cid w ls user t msg]
    reveal_effects_validated [of w ls cid kit user t msg]
  by blast

theorem kit_validated_first_witness:
  "validateRecoveryKit kit_ok = Valid \<and> \<not> all_digits (str_of (get_prop kit_ok ''capsuleId''))
   \<and> (\<exists>k i. base64ToArrayBuffer (str_of (get_prop kit_ok ''key'')) = Some k \<and> length k = 32
          \<and> base64ToArrayBuffer (str_of (get_prop kit_ok ''iv'')) = Some i \<and> length i = 12)
   \<and> validateRecoveryKit JNull = Invalid NotObject
   \<and> RevealService_revealCapsule w0 ls0 ''capsule-a'' JNull ''0xabc'' 4 None
       = (Inl (InvalidKit NotObject), ls0, [])
   \<and> get_prop kit_ok ''capsuleId'' \<noteq> JStr ''capsule-b'' \<and> \<not> all_digits ''capsule-b''
   \<and> RevealService_revealCapsule w0 ls0 ''capsule-b'' kit_ok ''0xabc'' 4 None
       = (Inl KitMismatch, ls0, [])
   \<and> snd (snd (RevealService_revealCapsule w0 ls0 ''capsule-a'' kit_ok ''0xabc'' 4 None)) \<noteq> []
   \<and> get_prop kit_ok ''capsuleId'' = JStr ''capsule-a''"
proof -
  have a: "\<not> all_digits (str_of (get_prop kit_ok ''capsuleId''))"
    by (simp add: kit_ok_def js_simps)
  have b: "get_prop kit_ok ''capsuleId'' \<noteq> JStr ''capsule-b'' \<and> \<not> all_digits ''capsule-b''"
    by (simp add: kit_ok_def js_simps)
  have c: "get_prop kit_ok ''capsuleId'' = JStr ''capsule-a''" by (simp add: kit_ok_def)
  from reveal_ok_kit obtain k i
    where r: "RevealService_revealCapsule w0 ls0 ''capsule-a'' kit_ok ''0xabc'' 4 None
                = (Inr rc0, ls1, [SubtleDecrypt k i [65, 66, 67]])"
    by blast
  from kit_validated_first [of kit_ok NotObject w0 ls0 "''capsule-b''" "''0xabc''" 4 None]
    kit_validated_first [of JNull NotObject w0 ls0 "''capsule-a''" "''0xabc''" 4 None]
    kit_validated_first [of kit_ok NotObject w0 ls0 "''capsule-a''" "''0xabc''" 4 None]
    kit_ok_valid kit_null_invalid a b c r
  show ?thesis by simp
qed


subsection \<open>One revealed capsule for each id\<close>

lemma reveal_already:
  assumes "getRevealedCapsule ls cid \<noteq> None"
  shows "\<exists>err. RevealService_revealCapsule w ls cid kit user t msg = (Inl err, ls, [])"
  using assms
  by (auto simp: RevealService_revealCapsule_def split: validation.splits)

lemma reveal_already_reason:
  assumes "getRevealedCapsule ls cid \<noteq> None" and "validateRecoveryKit kit = Valid"
    and "get_prop kit ''capsuleId'' = JStr cid \<or> all_digits cid"
  shows "RevealService_revealCapsule w ls cid kit user t msg = (Inl AlreadyRevealed, ls, [])"
  using assms by (auto simp: RevealService_revealCapsule_def)

lemma store_distinct:
  assumes "distinct (map rc_id (revealed_capsules ls))"
  shows "distinct (map rc_id (revealed_capsules (storeRevealedCapsule ls c)))"
  using assms by (auto simp: storeRevealedCapsule_def distinct_map_filter)

lemma reveal_result_cases:
  "(\<exists>err tr. RevealService_revealCapsule w ls cid kit user t msg = (Inl err, ls, tr))
   \<or> (\<exists>rc tr. rc_id rc = cid \<and> getRevealedCapsule ls cid = None
        \<and> RevealService_revealCapsule w ls cid kit user t msg
            = (Inr rc, storeRevealedCapsule ls rc, tr))"
  by (auto simp: RevealService_revealCapsule_def Let_def
           split: validation.splits option.splits prod.splits sum.splits)

lemma reveal_distinct:
  assumes "distinct (map rc_id (revealed_capsules ls))"
  shows "distinct (map rc_id (revealed_capsules
           (fst (snd (RevealService_revealCapsule w ls cid kit user t msg)))))"
  using reveal_result_cases [of w ls cid kit user t msg] assms store_distinct [OF assms]
  by auto

lemma find_None_filter: "find P xs = None \<Longrightarrow> filter (\<lambda>x. \<not> P x) xs = xs"
  by (induction xs) (auto split: if_splits)

lemma reveal_success_stores:
  assumes "fst (RevealService_revealCapsule w ls cid kit user t msg) = Inr rc"
  shows "revealed_capsules (fst (snd (RevealService_revealCapsule w ls cid kit user t msg)))
           = revealed_capsules ls @ [rc] \<and> rc_id rc = cid \<and> getRevealedCapsule ls cid = None"
proof -
  from reveal_result_cases [of w ls cid kit user t msg] assms
  obtain tr where i: "rc_id rc = cid" and n: "getRevealedCapsule ls cid = None"
    and r: "RevealService_revealCapsule w ls cid kit user t msg
              = (Inr rc, storeRevealedCapsule ls rc, tr)"
    by auto
  from n have "filter (\<lambda>c. rc_id c \<noteq> cid) (revealed_capsules ls) = revealed_capsules ls"
    using find_None_filter [of "\<lambda>c. rc_id c = cid" "revealed_capsules ls"]
    by (simp add: getRevealedCapsule_def)
  with i n r show ?thesis by (simp add: storeRevealedCapsule_def)
qed

lemma ledger_revealed_rejects:
  assumes "status (capsules st i) = REVEALED"
  shows "(\<exists>err. revealCapsule H st e i m ref = Inl err) \<and> step H st (e, RevealCapsule i m ref) = st"
  using assms by (auto simp: revealCapsule_def step_def Let_def)

lemma ledger_revealed_reason:
  assumes "status (capsules st i) = REVEALED" and "msg_value e = 0" and "validCapsule st i"
    and "timestamp e \<ge> ucast (unlockTime (capsules st i))"
    and "canAccessCapsule H st e i (sender e)"
  shows "revealCapsule H st e i m ref = Inl CapsuleAlreadyRevealed"
  using assms by (simp add: revealCapsule_def onlyUnlocked_def Let_def not_less)

lemma run_stays_revealed:
  "validCapsule st i \<Longrightarrow> status (capsules st i) = REVEALED \<Longrightarrow>
     status (capsules (run H st txs) i) = REVEALED"
  by (induction txs arbitrary: st) (simp_all add: step_revealed_ref step_valid)

lemma ledger_revealed_later:
  assumes "validCapsule st i" and "status (capsules st i) = REVEALED"
  shows "\<exists>err. revealCapsule H (run H st txs) e i m ref = Inl err"
  using ledger_revealed_rejects [OF run_stays_revealed [OF assms, of H txs], of H e m ref]
  by blast

subsection \<open>Every writer of the index\<close>

lemma update_first_map:
  assumes "update_first P f xs = Some ys" and "\<And>x. g (f x) = g x"
  shows "map g ys = map g xs"
  using assms(1)
proof (induction xs arbitrary: ys)
  case Nil
  then show ?case by simp
next
  case (Cons x xs)
  then show ?case
    by (auto simp: assms(2) split: if_splits option.splits)
qed

lemma like_ids:
  "map rc_id (revealed_capsules (snd (likeCapsule ls c))) = map rc_id (revealed_capsules ls)"
  by (auto simp: likeCapsule_def split: option.splits
           dest: update_first_map [where g = rc_id])

lemma comment_ids:
  "map rc_id (revealed_capsules (snd (addComment w ls c who words)))
     = map rc_id (revealed_capsules ls)"
  by (auto simp: addComment_def Let_def split: option.splits
           dest: update_first_map [where g = rc_id])

lemma pseudo_ids:
  "map rc_id (revealed_capsules (snd (addUnlockedCapsulesAsPseudoRevealed w ls u)))
     = map rc_id (revealed_capsules ls)
       @ map sc_id (filter (\<lambda>capsule.
           now w \<ge> sc_unlockTime capsule * 1000
           \<and> \<not> list_ex (\<lambda>r. rc_id r = sc_id capsule) (revealed_capsules ls)
           \<and> sc_visibility capsule \<noteq> JStr ''private'') (timeCapsules ls))"
  by (simp add: addUnlockedCapsulesAsPseudoRevealed_def Let_def
      createPseudoRevealedCapsule_def comp_def)

lemma pseudo_distinct:
  assumes "distinct (map rc_id (revealed_capsules ls))"
    and "distinct (map sc_id (timeCapsules ls))"
  shows "distinct (map rc_id (revealed_capsules
           (snd (addUnlockedCapsulesAsPseudoRevealed w ls u))))"
  unfolding pseudo_ids using assms
  by (auto simp: distinct_map_filter list_ex_iff)

lemma client_step_timeCapsules: "timeCapsules (client_step w ls c) = timeCapsules ls"
proof (cases c)
  case (Reveal cid kit user t msg)
  with reveal_result_cases [of w ls cid kit user t msg] show ?thesis
    by (auto simp: storeRevealedCapsule_def)
next
  case (Like cid)
  then show ?thesis by (simp add: likeCapsule_def split: option.splits)
next
  case (Comment cid who words)
  then show ?thesis by (simp add: addComment_def Let_def split: option.splits)
next
  case ClearAll
  then show ?thesis by (simp add: clearAllRevealedCapsules_def)
next
  case (AddPseudo u)
  then show ?thesis by (simp add: addUnlockedCapsulesAsPseudoRevealed_def Let_def)
qed

lemma client_step_distinct:
  assumes "distinct (map rc_id (revealed_capsules ls))"
    and "distinct (map sc_id (timeCapsules ls))"
  shows "distinct (map rc_id (revealed_capsules (client_step w ls c)))"
proof (cases c)
  case (Reveal cid kit user t msg)
  with reveal_distinct [OF assms(1), of w cid kit user t msg] show ?thesis by simp
next
  case (Like cid)
  with assms(1) show ?thesis by (simp add: like_ids)
next
  case (Comment cid who words)
  with assms(1) show ?thesis by (simp add: comment_ids)
next
  case ClearAll
  then show ?thesis by (simp add: clearAllRevealedCapsules_def)
next
  case (AddPseudo u)
  with pseudo_distinct [OF assms, of w u] show ?thesis by simp
qed

lemma client_run_distinct:
  "distinct (map rc_id (revealed_capsules ls)) \<Longrightarrow> distinct (map sc_id (timeCapsules ls)) \<Longrightarrow>
     distinct (map rc_id (revealed_capsules (client_run ls cs)))"
proof (induction cs arbitrary: ls)
  case Nil
  then show ?case by simp
next
  case (Cons wc cs)
  obtain w c where wc: "wc = (w, c)" by (cases wc)
  have "distinct (map rc_id (revealed_capsules (client_step w ls c)))"
    by (rule client_step_distinct [OF Cons.prems])
  moreover have "distinct (map sc_id (timeCapsules (client_step w ls c)))"
    using Cons.prems(2) by (simp add: client_step_timeCapsules)
  ultimately show ?case using Cons.IH by (simp add: wc)
qed

lemma getRevealed_iff:
  "getRevealedCapsule ls cid \<noteq> None \<longleftrightarrow> cid \<in> set (map rc_id (revealed_capsules ls))"
  by (auto simp: getRevealedCapsule_def find_None_iff)

lemma client_step_keeps_ids:
  assumes "c \<noteq> ClearAll"
  shows "set (map rc_id (revealed_capsules ls))
           \<subseteq> set (map rc_id (revealed_capsules (client_step w ls c)))"
proof (cases c)
  case (Reveal cid kit user t msg)
  with reveal_result_cases [of w ls cid kit user t msg] show ?thesis
    by (auto simp: storeRevealedCapsule_def)
next
  case (Like cid)
  then show ?thesis by (simp add: like_ids)
next
  case (Comment cid who words)
  then show ?thesis by (simp add: comment_ids)
next
  case ClearAll
  with assms show ?thesis by simp
next
  case (AddPseudo u)
  then show ?thesis by (simp add: pseudo_ids)
qed

lemma client_run_keeps_ids:
  "ClearAll \<notin> snd ` set cs \<Longrightarrow>
     set (map rc_id (revealed_capsules ls))
       \<subseteq> set (map rc_id (revealed_capsules (client_run ls cs)))"
proof (induction cs arbitrary: ls)
  case Nil
  then show ?case by simp
next
  case (Cons wc cs)
  obtain w c where wc: "wc = (w, c)" by (cases wc)
  from Cons.prems wc have c: "c \<noteq> ClearAll" and cs: "ClearAll \<notin> snd ` set cs" by auto
  from client_step_keeps_ids [OF c, of ls w] Cons.IH [OF cs, of "client_step w ls c"]
  show ?case by (simp add: wc)
qed

lemma reveal_rejected_later:
  assumes "getRevealedCapsule ls cid \<noteq> None" and "ClearAll \<notin> snd ` set cs"
  shows "\<exists>err. RevealService_revealCapsule w (client_run ls cs) cid kit user t msg
                 = (Inl err, client_run ls cs, [])"
proof -
  from assms(1) client_run_keeps_ids [OF assms(2), of ls]
  have "getRevealedCapsule (client_run ls cs) cid \<noteq> None"
    unfolding getRevealed_iff by blast
  then show ?thesis by (rule reveal_already)
qed

lemma pseudo_twice:
  "map rc_id (revealed_capsules (snd (addUnlockedCapsulesAsPseudoRevealed w0 ls2 ''0xabc'')))
     = [''1700000000000'', ''1700000000000'']"
  by (simp add: pseudo_ids ls2_def stored_entry_def w0_def)

lemma clear_ls1: "clearAllRevealedCapsules ls1 = ls0"
  by (simp add: clearAllRevealedCapsules_def ls1_def ls0_def fun_upd_idem_iff)

text \<open>
  Claim C5 as it is stated fails in four places. With a record already stored, a call
  whose kit does not validate is rejected for the kit, not as already revealed. On a
  REVEALED capsule the ledger reverts an unauthorized caller with
  \<open>UnauthorizedAccess\<close>, not \<open>CapsuleAlreadyRevealed\<close>. Where the stored capsule list
  holds one id twice, \<open>addUnlockedCapsulesAsPseudoRevealed\<close> puts two records with
  that id in the index. And after \<open>clearAllRevealedCapsules\<close> a later reveal of an id
  that had a record succeeds.
\<close>

theorem reveal_once_counterexample:
  "getRevealedCapsule ls1 ''capsule-a'' \<noteq> None
   \<and> RevealService_revealCapsule w0 ls1 ''capsule-a'' JNull ''0xabc'' 4 None
       = (Inl (InvalidKit NotObject), ls1, [])
   \<and> status (capsules st3 1) = REVEALED
   \<and> revealCapsule H0 st3 (call_at 6 90002) 1 [1, 2, 3] [] = Inl UnauthorizedAccess
   \<and> map rc_id (revealed_capsules (client_step w0 ls2 (AddPseudo ''0xabc'')))
       = [''1700000000000'', ''1700000000000'']
   \<and> fst (RevealService_revealCapsule w0 (client_step w0 ls1 ClearAll) ''capsule-a'' kit_ok
            ''0xabc'' 4 None) = Inr rc0"
proof -
  have g: "getRevealedCapsule ls1 ''capsule-a'' \<noteq> None"
    by (simp add: getRevealedCapsule_def ls1_def rc0_def)
  have r: "RevealService_revealCapsule w0 ls1 ''capsule-a'' JNull ''0xabc'' 4 None
       = (Inl (InvalidKit NotObject), ls1, [])"
    by (simp add: RevealService_revealCapsule_def kit_null_invalid)
  have s: "status (capsules st3 1) = REVEALED" by (simp add: st3_eq capsule1_def)
  have u: "revealCapsule H0 st3 (call_at 6 90002) 1 [1, 2, 3] [] = Inl UnauthorizedAccess"
    by (simp add: st3_eq revealCapsule_def ex_simps)
  have p: "map rc_id (revealed_capsules (client_step w0 ls2 (AddPseudo ''0xabc'')))
       = [''1700000000000'', ''1700000000000'']"
    by (simp add: pseudo_twice)
  from reveal_ok_kit obtain k i
    where "RevealService_revealCapsule w0 ls0 ''capsule-a'' kit_ok ''0xabc'' 4 None
             = (Inr rc0, ls1, [SubtleDecrypt k i [65, 66, 67]])"
    by blast
  then have c: "fst (RevealService_revealCapsule w0 (client_step w0 ls1 ClearAll)
                  ''capsule-a'' kit_ok ''0xabc'' 4 None) = Inr rc0"
    by (simp add: clear_ls1)
  from g r s u p c show ?thesis by blast
qed

text \<open>
  Claim C5, as the code has it. While the index holds a revealed capsule for an id,
  every \<open>revealCapsule\<close> of the reveal service for that id fails, leaves the storage as
  it is and calls nothing outside; the failure is the already-revealed one when the kit
  validates and the id check passes. A record stays through every call that writes the
  index except \<open>clearAllRevealedCapsules\<close>, so until then every later reveal of the id
  is rejected. Under every sequence of the calls that write the index (reveal, like,
  comment, clear, pseudo-reveal) the index holds at most one record for an id, given
  that the stored capsule list holds no id twice; a reveal that succeeds found no
  record for the id and appends exactly one. On the ledger, \<open>revealCapsule\<close> on a
  REVEALED capsule reverts, leaving the storage as it is, now and after every later
  sequence of calls; it reverts with \<open>CapsuleAlreadyRevealed\<close> when the call sends no
  ether, the id exists, the unlock time has passed and the caller is authorized.
\<close>

theorem reveal_once:
  "(getRevealedCapsule ls cid \<noteq> None \<longrightarrow>
      (\<exists>err. RevealService_revealCapsule w ls cid kit user t msg = (Inl err, ls, []))
      \<and> (validateRecoveryKit kit = Valid
          \<and> (get_prop kit ''capsuleId'' = JStr cid \<or> all_digits cid) \<longrightarrow>
          RevealService_revealCapsule w ls cid kit user t msg = (Inl AlreadyRevealed, ls, [])))
   \<and> (getRevealedCapsule ls cid \<noteq> None \<and> ClearAll \<notin> snd ` set cs \<longrightarrow>
        (\<exists>err. RevealService_revealCapsule w (client_run ls cs) cid kit user t msg
                 = (Inl err, client_run ls cs, [])))
   \<and> (distinct (map rc_id (revealed_capsules ls)) \<and> distinct (map sc_id (timeCapsules ls)) \<longrightarrow>
        distinct (map rc_id (revealed_capsules (client_run ls cs))))
   \<and> (fst (RevealService_revealCapsule w ls cid kit user t msg) = Inr rc \<longrightarrow>
        getRevealedCapsule ls cid = None \<and> rc_id rc = cid
        \<and> revealed_capsules (fst (snd (RevealService_revealCapsule w ls cid kit user t msg)))
            = revealed_capsules ls @ [rc])
   \<and> (status (capsules st i) = REVEALED \<longrightarrow>
        (\<exists>err. revealCapsule H st e i m ref = Inl err)
        \<and> step H st (e, RevealCapsule i m ref) = st
        \<and> (msg_value e = 0 \<and> validCapsule st i
            \<and> timestamp e \<ge> ucast (unlockTime (capsules st i))
            \<and> canAccessCapsule H st e i (sender e) \<longrightarrow>
            revealCapsule H st e i m ref = Inl CapsuleAlreadyRevealed))
   \<and> (validCapsule st i \<and> status (capsules st i) = REVEALED \<longrightarrow>
        (\<exists>err. revealCapsule H (run H st txs) e i m ref = Inl err))"
  using reveal_already [of ls cid w kit user t msg]
    reveal_already_reason [of ls cid kit w user t msg]
    reveal_rejected_later [of ls cid cs w kit user t msg]
    client_run_distinct [of ls cs]
    reveal_success_stores [of w ls cid kit user t msg rc]
    ledger_revealed_rejects [of st i H e m ref]
    ledger_revealed_reason [of st i e H m ref]
    ledger_revealed_later [of st i H txs e m ref]
  by blast

theorem reveal_once_witness:
  "getRevealedCapsule ls1 ''capsule-a'' \<noteq> None
   \<and> validateRecoveryKit kit_ok = Valid \<and> get_prop kit_ok ''capsuleId'' = JStr ''capsule-a''
   \<and> RevealService_revealCapsule w0 ls1 ''capsule-a'' kit_ok ''0xabc'' 4 None
       = (Inl AlreadyRevealed, ls1, [])
   \<and> ClearAll \<notin> snd ` set [(w0, Like ''capsule-a''), (w0, AddPseudo ''0xabc'')]
   \<and> (\<exists>err. RevealService_revealCapsule w0
          (client_run ls1 [(w0, Like ''capsule-a''), (w0, AddPseudo ''0xabc'')])
          ''capsule-a'' kit_ok ''0xabc'' 4 None
        = (Inl err, client_run ls1 [(w0, Like ''capsule-a''), (w0, AddPseudo ''0xabc'')], []))
   \<and> distinct (map rc_id (revealed_capsules ls1)) \<and> distinct (map sc_id (timeCapsules ls1))
   \<and> distinct (map rc_id (revealed_capsules
        (client_run ls1 [(w0, Like ''capsule-a''), (w0, AddPseudo ''0xabc'')])))
   \<and> fst (RevealService_revealCapsule w0 ls0 ''capsule-a'' kit_ok ''0xabc'' 4 None) = Inr rc0
   \<and> revealed_capsules (fst (snd
        (RevealService_revealCapsule w0 ls0 ''capsule-a'' kit_ok ''0xabc'' 4 None)))
       = revealed_capsules ls0 @ [rc0]
   \<and> status (capsules st3 1) = REVEALED
   \<and> msg_value (call_at 5 90002) = 0
   \<and> validCapsule st3 1 \<and> timestamp (call_at 5 90002) \<ge> ucast (unlockTime (capsules st3 1))
   \<and> canAccessCapsule H0 st3 (call_at 5 90002) 1 (sender (call_at 5 90002))
   \<and> revealCapsule H0 st3 (call_at 5 90002) 1 [1, 2, 3] ''QmOther'' = Inl CapsuleAlreadyRevealed
   \<and> step H0 st3 (call_at 5 90002, RevealCapsule 1 [1, 2, 3] ''QmOther'') = st3
   \<and> (\<exists>err. revealCapsule H0 (run H0 st3 [(call_at 5 90002, UnlockCapsule 1)])
          (call_at 5 90003) 1 [1, 2, 3] ''QmOther'' = Inl err)"
proof -
  let ?cs = "[(w0, Like ''capsule-a''), (w0, AddPseudo ''0xabc'')]"
  have g: "getRevealedCapsule ls1 ''capsule-a'' \<noteq> None"
    by (simp add: getRevealedCapsule_def ls1_def rc0_def)
  have p: "get_prop kit_ok ''capsuleId'' = JStr ''capsule-a''" by (simp add: kit_ok_def)
  have n: "ClearAll \<notin> snd ` set ?cs" by simp
  have d: "distinct (map rc_id (revealed_capsules ls1))
     \<and> distinct (map sc_id (timeCapsules ls1))"
    by (simp add: ls1_def ls0_def stored_entry_def)
  have s: "status (capsules st3 1) = REVEALED \<and> msg_value (call_at 5 90002) = 0
     \<and> validCapsule st3 1
     \<and> timestamp (call_at 5 90002) \<ge> ucast (unlockTime (capsules st3 1))
     \<and> canAccessCapsule H0 st3 (call_at 5 90002) 1 (sender (call_at 5 90002))"
    by (simp add: st3_eq ex_simps)
  from reveal_ok_kit obtain k i'
    where r: "RevealService_revealCapsule w0 ls0 ''capsule-a'' kit_ok ''0xabc'' 4 None
                = (Inr rc0, ls1, [SubtleDecrypt k i' [65, 66, 67]])"
    by blast
  note t1 = reveal_once [of ls1 "''capsule-a''" w0 kit_ok "''0xabc''" 4 None ?cs rc0 st3 1 H0
      "call_at 5 90002" "[1, 2, 3]" "''QmOther''" "[]"]
  note t0 = reveal_once [of ls0 "''capsule-a''" w0 kit_ok "''0xabc''" 4 None ?cs rc0 st3 1 H0
      "call_at 5 90002" "[1, 2, 3]" "''QmOther''" "[]"]
  note t2 = reveal_once [of ls1 "''capsule-a''" w0 kit_ok "''0xabc''" 4 None ?cs rc0 st3 1 H0
      "call_at 5 90003" "[1, 2, 3]" "''QmOther''" "[(call_at 5 90002, UnlockCapsule 1)]"]
  have f1: "RevealService_revealCapsule w0 ls1 ''capsule-a'' kit_ok ''0xabc'' 4 None
       = (Inl AlreadyRevealed, ls1, [])"
    using t1 g p kit_ok_valid by blast
  have f2: "\<exists>err. RevealService_revealCapsule w0 (client_run ls1 ?cs)
          ''capsule-a'' kit_ok ''0xabc'' 4 None = (Inl err, client_run ls1 ?cs, [])"
    using t1 g n by blast
  have f3: "distinct (map rc_id (revealed_capsules (client_run ls1 ?cs)))"
    using t1 d by blast
  have f4: "fst (RevealService_revealCapsule w0 ls0 ''capsule-a'' kit_ok ''0xabc'' 4 None)
       = Inr rc0"
    using r by simp
  have f5: "revealed_capsules (fst (snd
        (RevealService_revealCapsule w0 ls0 ''capsule-a'' kit_ok ''0xabc'' 4 None)))
       = revealed_capsules ls0 @ [rc0]"
    using t0 f4 by blast
  have f6: "revealCapsule H0 st3 (call_at 5 90002) 1 [1, 2, 3] ''QmOther''
       = Inl CapsuleAlreadyRevealed
     \<and> step H0 st3 (call_at 5 90002, RevealCapsule 1 [1, 2, 3] ''QmOther'') = st3"
    using t1 s by blast
  have f7: "\<exists>err. revealCapsule H0 (run H0 st3 [(call_at 5 90002, UnlockCapsule 1)])
          (call_at 5 90003) 1 [1, 2, 3] ''QmOther'' = Inl err"
    using t2 s by blast
  from g p n d s kit_ok_valid f1 f2 f3 f4 f5 f6 f7 show ?thesis by blast
qed

end
